theory Spec2Isabelle
  imports Complex_Main "HOL-Library.Word" "HOL-Library.Log_Nat"
begin

section \<open>Bytes and strings\<close>

text \<open>
  A \<open>std::string\<close> is a sequence of bytes; a byte is an \<open>unsigned char\<close>.
  Offsets into strings (\<open>long\<close> values that are array indices) are natural numbers.
\<close>

type_synonym byte = "8 word"
type_synonym bytes = "byte list"

definition bytes_of :: "string \<Rightarrow> bytes" where
  "bytes_of s = map of_char s"

datatype error = DecodeError | TrimmedModel | OutOfRange | ReadError | BadSuffixSize

section \<open>Miscellaneous functions\<close>

subsection \<open>store_codepoints\<close>

definition masks :: "byte list" where
  "masks = [0, 0x6, 0xE, 0x1E, 0x3E, 0x7E]"

definition shift :: "nat list" where
  "shift = [7, 5, 4, 3, 2, 1]"

text \<open>The inner loop over \<open>j\<close>: some \<open>j < 6\<close> has \<open>c >> shift[j] == masks[j]\<close>.\<close>

definition found_start :: "byte \<Rightarrow> bool" where
  "found_start c = list_ex (\<lambda>(sh, m). drop_bit sh c = m) (zip shift masks)"

text \<open>
  The outer loop over the bytes of \<open>s\<close>: \<open>i\<close> is the index of the byte at the
  head of the remaining input, \<open>v\<close> the vector filled so far. \<open>None\<close> is the
  \<open>return false\<close> of the source.
\<close>

fun store_codepoints_loop :: "nat \<Rightarrow> bytes \<Rightarrow> nat list \<Rightarrow> nat list option" where
  "store_codepoints_loop i [] v = Some v"
| "store_codepoints_loop i (c # cs) v =
     (if found_start c then store_codepoints_loop (i + 1) cs (v @ [i])
      else if drop_bit 6 c \<noteq> 0x2 \<or> i = 0 then None
      else store_codepoints_loop (i + 1) cs v)"

definition store_codepoints :: "bytes \<Rightarrow> nat list option" where
  "store_codepoints s = store_codepoints_loop 0 s []"

subsection \<open>common_prefix_size\<close>

text \<open>\<open>s[i]\<close> of a \<open>std::string\<close>: the byte at \<open>i\<close>, and the terminating zero at \<open>i = size\<close>.\<close>

definition char_at :: "bytes \<Rightarrow> nat \<Rightarrow> byte" where
  "char_at s i = (if i < length s then s ! i else 0)"

text \<open>
  The loop over \<open>j < N\<close> reads \<open>acodepoints[j]\<close> and \<open>bcodepoints[j]\<close>; the model
  walks the two vectors in step (the list of pairs has \<open>N\<close> elements). The inner loop
  compares the bytes at \<open>preflen \<le> i < acodepoints[j]\<close>.
\<close>

fun common_prefix_loop :: "nat \<Rightarrow> bytes \<Rightarrow> bytes \<Rightarrow> (nat \<times> nat) list \<Rightarrow> nat \<Rightarrow> nat \<Rightarrow> nat" where
  "common_prefix_loop N a b [] j preflen = N"
| "common_prefix_loop N a b ((ac, bc) # rest) j preflen =
     (if ac \<noteq> bc then j
      else if list_ex (\<lambda>i. char_at a i \<noteq> char_at b i) [preflen..<ac] then j
      else common_prefix_loop N a b rest (j + 1) ac)"

definition common_prefix_size :: "bytes \<Rightarrow> bytes \<Rightarrow> nat list \<Rightarrow> nat list \<Rightarrow> nat" where
  "common_prefix_size a b acodepoints bcodepoints =
     (let N = min (length acodepoints) (length bcodepoints)
      in common_prefix_loop N a b (zip acodepoints bcodepoints) 0 0)"

subsection \<open>compute_prob\<close>

text \<open>
  The scores are \<open>double\<close> values: IEEE 754 binary64, rounding to nearest with
  ties to even. A value is a sign (\<open>True\<close> for negative) with a magnitude, an
  infinity with its sign, or NaN; the magnitude is the exact value of the number, a
  rational that is never negative.
\<close>

datatype double = Finite bool rat | Infinity bool | NaN

definition pow2 :: "int \<Rightarrow> rat" where
  "pow2 e = (if 0 \<le> e then 2 ^ nat e else 1 / 2 ^ nat (- e))"

text \<open>The exponent \<open>e\<close> of a positive rational: \<open>2 ^ e \<le> q < 2 ^ (e + 1)\<close>.\<close>

definition binary_exponent :: "rat \<Rightarrow> int" where
  "binary_exponent q =
     (let e = bitlen (fst (quotient_of q)) - bitlen (snd (quotient_of q))
      in if pow2 e \<le> q then e else e - 1)"

text \<open>The nearest integer, the even one of the two when both are equally near.\<close>

definition round_even :: "rat \<Rightarrow> int" where
  "round_even k =
     (let f = \<lfloor>k\<rfloor>; r = k - of_int f
      in if r < 1 / 2 then f else if 1 / 2 < r then f + 1 else if even f then f else f + 1)"

text \<open>
  The binary64 number nearest to a magnitude \<open>q\<close>: 53 significant bits, so the unit
  in the last place is \<open>2 ^ (e - 52)\<close> and \<open>q\<close> becomes a whole number \<open>m\<close> of
  units, at most \<open>2 ^ 53\<close>; below the exponent \<open>-1022\<close> the numbers are subnormal
  and the unit stays \<open>2 ^ (-1074)\<close>; a result of \<open>2 ^ 1024\<close> or more (an exponent
  above 1023, or 1023 with \<open>m = 2 ^ 53\<close>) is an infinity.
\<close>

definition round_binary64 :: "bool \<Rightarrow> rat \<Rightarrow> double" where
  "round_binary64 s q =
     (if q = 0 then Finite s 0
      else
        let e = max (binary_exponent q) (- 1022);
            ulp = pow2 (e - 52);
            m = round_even (q / ulp)
        in if 1023 < e \<or> (e = 1023 \<and> m = 2 ^ 53) then Infinity s
           else Finite s (of_int m * ulp))"

text \<open>\<open>static_cast<double>\<close> of a \<open>long\<close>, and the conversion of a \<open>long\<close> operand.\<close>

definition double_of_long :: "int \<Rightarrow> double" where
  "double_of_long x = round_binary64 (x < 0) (of_int \<bar>x\<bar>)"

fun double_mult :: "double \<Rightarrow> double \<Rightarrow> double" where
  "double_mult (Finite s a) (Finite t b) = round_binary64 (s \<noteq> t) (a * b)"
| "double_mult (Finite s a) (Infinity t) = (if a = 0 then NaN else Infinity (s \<noteq> t))"
| "double_mult (Infinity s) (Finite t b) = (if b = 0 then NaN else Infinity (s \<noteq> t))"
| "double_mult (Infinity s) (Infinity t) = Infinity (s \<noteq> t)"
| "double_mult NaN y = NaN"
| "double_mult x NaN = NaN"

fun double_div :: "double \<Rightarrow> double \<Rightarrow> double" where
  "double_div (Finite s a) (Finite t b) =
     (if b = 0 then (if a = 0 then NaN else Infinity (s \<noteq> t))
      else round_binary64 (s \<noteq> t) (a / b))"
| "double_div (Finite s a) (Infinity t) = Finite (s \<noteq> t) 0"
| "double_div (Infinity s) (Finite t b) = Infinity (s \<noteq> t)"
| "double_div (Infinity s) (Infinity t) = NaN"
| "double_div NaN y = NaN"
| "double_div x NaN = NaN"

text \<open>The position of a value that is not NaN on the extended real line.\<close>

fun double_rank :: "double \<Rightarrow> int \<times> rat" where
  "double_rank (Finite s a) = (0, if s then - a else a)"
| "double_rank (Infinity s) = (if s then - 1 else 1, 0)"
| "double_rank NaN = (0, 0)"

definition double_gt :: "double \<Rightarrow> double \<Rightarrow> bool" where
  "double_gt x y =
     (x \<noteq> NaN \<and> y \<noteq> NaN \<and>
      (fst (double_rank y) < fst (double_rank x) \<or>
       fst (double_rank y) = fst (double_rank x) \<and> snd (double_rank y) < snd (double_rank x)))"

type_synonym counts = "int \<times> int"

text \<open>
  \<open>static_cast<double>(p.first) / (p.first + p.second)\<close>: the sum is a sum of
  \<open>long\<close> values (its overflow is undefined in the source and not modelled), and
  both operands are converted before the division.
\<close>

definition compute_prob :: "counts \<Rightarrow> double" where
  "compute_prob p = double_div (double_of_long (fst p)) (double_of_long (fst p + snd p))"

subsection \<open>ltrim, rtrim, trim\<close>

text \<open>\<open>std::isspace\<close> in the C locale: space, and the control characters 9 to 13.\<close>

definition isspace :: "byte \<Rightarrow> bool" where
  "isspace c = (c = 0x20 \<or> (0x09 \<le> c \<and> c \<le> 0x0D))"

definition ltrim :: "bytes \<Rightarrow> bytes" where
  "ltrim s = dropWhile isspace s"

definition rtrim :: "bytes \<Rightarrow> bytes" where
  "rtrim s = rev (dropWhile isspace (rev s))"

definition trim :: "bytes \<Rightarrow> bytes" where
  "trim s = ltrim (rtrim s)"

text \<open>\<open>s.substr(pos)\<close> throws \<open>std::out_of_range\<close> when \<open>pos > s.size()\<close>.\<close>

definition substr :: "bytes \<Rightarrow> nat \<Rightarrow> error + bytes" where
  "substr s pos = (if pos > length s then Inl OutOfRange else Inr (drop pos s))"

section \<open>Main model methods\<close>

text \<open>
  A \<open>std::unordered_map\<close> is an association list with one entry per key, in the
  order in which the container iterates. The standard leaves that order to the
  implementation; the model puts a new key last. A count is a \<open>long\<close>; the model
  uses \<open>int\<close>, since signed overflow is undefined in the source.
\<close>

type_synonym count_table = "(bytes \<times> counts) list"

record Model =
  replacements :: "(bytes \<times> count_table) list"
  lemcounts :: count_table
  infcounts :: count_table
  max_suffix_size :: nat
  is_trimmed :: bool

text \<open>The constructor: its member initialisers, then the check of the size.\<close>

definition init_Model :: "nat \<Rightarrow> Model" where
  "init_Model sz =
     \<lparr>replacements = [], lemcounts = [], infcounts = [], max_suffix_size = sz, is_trimmed = False\<rparr>"

definition new_Model :: "nat \<Rightarrow> error + Model" where
  "new_Model sz = (if sz < 1 \<or> sz > 1024 then Inl BadSuffixSize else Inr (init_Model sz))"

text \<open>
  \<open>T& data = m[k]; data = f(data)\<close>: \<open>operator[]\<close> inserts a value-initialised
  \<open>d\<close> when the key is absent, and the caller changes the entry through the reference.
\<close>

fun entry_update :: "'k \<Rightarrow> ('v \<Rightarrow> 'v) \<Rightarrow> 'v \<Rightarrow> ('k \<times> 'v) list \<Rightarrow> ('k \<times> 'v) list" where
  "entry_update k f d [] = [(k, f d)]"
| "entry_update k f d ((k', v) # xs) =
     (if k = k' then (k', f v) # xs else (k', v) # entry_update k f d xs)"

text \<open>\<open>data.first += tp; data.second += fp\<close>\<close>

definition add_counts :: "int \<Rightarrow> int \<Rightarrow> counts \<Rightarrow> counts" where
  "add_counts tp fp data = (fst data + tp, snd data + fp)"

definition update_replacement :: "Model \<Rightarrow> bytes \<Rightarrow> bytes \<Rightarrow> int \<Rightarrow> int \<Rightarrow> Model" where
  "update_replacement mdl inf' lem' tp fp =
     mdl\<lparr>replacements :=
       entry_update inf' (entry_update lem' (add_counts tp fp) (0, 0)) [] (replacements mdl)\<rparr>"

definition update_inflected :: "Model \<Rightarrow> bytes \<Rightarrow> int \<Rightarrow> int \<Rightarrow> Model" where
  "update_inflected mdl inf' tp fp =
     mdl\<lparr>infcounts := entry_update inf' (add_counts tp fp) (0, 0) (infcounts mdl)\<rparr>"

definition update_lemma :: "Model \<Rightarrow> bytes \<Rightarrow> int \<Rightarrow> int \<Rightarrow> Model" where
  "update_lemma mdl lem' tp fp =
     mdl\<lparr>lemcounts := entry_update lem' (add_counts tp fp) (0, 0) (lemcounts mdl)\<rparr>"

subsection \<open>update\<close>

text \<open>
  The constants of one call of \<open>update\<close>, as the loop body reads them: the two
  strings with the marker \<open>$\<close> (byte \<open>0x24\<close>) in front, their index lists with the
  sentinel, the sizes of these lists, the result of \<open>common_prefix_size\<close> and the
  count.
\<close>

record update_env =
  inf' :: bytes
  lem' :: bytes
  infcodepoints :: "nat list"
  lemcodepoints :: "nat list"
  infsize :: int
  lemsize :: int
  prefixsize :: int
  count :: int

definition infsuf :: "update_env \<Rightarrow> int \<Rightarrow> bytes" where
  "infsuf e i = drop (infcodepoints e ! nat (min (infsize e - 1) i)) (inf' e)"

definition lemsuf :: "update_env \<Rightarrow> int \<Rightarrow> bytes" where
  "lemsuf e i = drop (lemcodepoints e ! nat (min (lemsize e - 1) i)) (lem' e)"

definition update_body :: "update_env \<Rightarrow> Model \<Rightarrow> int \<Rightarrow> Model" where
  "update_body e mdl i =
     (let m1 = (if i \<le> prefixsize e - 1
                then update_replacement mdl (infsuf e i) (lemsuf e i) (count e) 0
                else update_replacement mdl (infsuf e i) (lemsuf e i) 0 (count e));
          m2 = update_lemma m1 (lemsuf e i) (count e) 0;
          m3 = update_lemma m2 (infsuf e i) 0 (count e);
          m4 = update_inflected m3 (infsuf e i) (count e) 0
      in update_inflected m4 (lemsuf e i) 0 (count e))"

text \<open>\<open>for (long i = n-2; i >= m; --i)\<close>\<close>

function update_loop :: "update_env \<Rightarrow> int \<Rightarrow> Model \<Rightarrow> int \<Rightarrow> Model" where
  "update_loop e m mdl i = (if i \<ge> m then update_loop e m (update_body e mdl i) (i - 1) else mdl)"
  by pat_completeness auto
termination
  by (relation "measure (\<lambda>(e, m, mdl, i). nat (i - m + 1))") auto

declare update_loop.simps [simp del]

definition update_env_of :: "bytes \<Rightarrow> bytes \<Rightarrow> nat list \<Rightarrow> nat list \<Rightarrow> int \<Rightarrow> update_env" where
  "update_env_of a b infcps lemcps c =
     \<lparr>inf' = a, lem' = b, infcodepoints = infcps, lemcodepoints = lemcps,
      infsize = int (length infcps), lemsize = int (length lemcps),
      prefixsize = int (common_prefix_size a b infcps lemcps), count = c\<rparr>"

definition update :: "Model \<Rightarrow> bytes \<Rightarrow> bytes \<Rightarrow> int \<Rightarrow> error + Model" where
  "update mdl inflected lemma c =
     (if is_trimmed mdl then Inl TrimmedModel
      else
        let a = 0x24 # inflected; b = 0x24 # lemma
        in case store_codepoints a of
             None \<Rightarrow> Inl DecodeError
           | Some infcps \<Rightarrow>
               (case store_codepoints b of
                  None \<Rightarrow> Inl DecodeError
                | Some lemcps \<Rightarrow>
                    let infcodepoints' = infcps @ [length a];
                        lemcodepoints' = lemcps @ [length b];
                        n = int (max (length infcodepoints') (length lemcodepoints'));
                        m = max (n - int (max_suffix_size mdl + 1)) 0;
                        e = update_env_of a b infcodepoints' lemcodepoints' c
                    in Inr (update_loop e m mdl (n - 2))))"

subsection \<open>lemmatize\<close>

text \<open>
  The loop over the candidate replacements \<open>k\<close> of one suffix. The state is
  \<open>(best_lemma, best_prob, iter_found)\<close>; \<open>c\<close> is \<open>codepoints[i]\<close>.
\<close>

fun lemmatize_candidates ::
  "Model \<Rightarrow> bytes \<Rightarrow> nat \<Rightarrow> double \<Rightarrow> count_table \<Rightarrow> bytes \<times> double \<times> bool \<Rightarrow> bytes \<times> double \<times> bool" where
  "lemmatize_candidates mdl a c prB [] st = st"
| "lemmatize_candidates mdl a c prB ((ls, p) # ks) (best_lemma, best_prob, iter_found) =
     (case map_of (lemcounts mdl) ls of
        None \<Rightarrow> lemmatize_candidates mdl a c prB ks (best_lemma, best_prob, iter_found)
      | Some q \<Rightarrow>
          let prA = compute_prob q;
              prBA = compute_prob p;
              prAB = double_div (double_mult prBA prA) prB
          in if double_gt prAB best_prob
             then lemmatize_candidates mdl a c prB ks (take c a @ ls, prAB, True)
             else lemmatize_candidates mdl a c prB ks (best_lemma, best_prob, iter_found))"

text \<open>
  The loop over \<open>i < n\<close>: the list holds \<open>codepoints[i], ..., codepoints[n-1]\<close>.
  \<open>best_lemma\<close> is declared outside the loop and keeps its value between iterations.
\<close>

fun lemmatize_loop :: "Model \<Rightarrow> bytes \<Rightarrow> bytes \<Rightarrow> nat list \<Rightarrow> bytes \<Rightarrow> error + bytes" where
  "lemmatize_loop mdl inflected a [] best_lemma = Inr inflected"
| "lemmatize_loop mdl inflected a (c # cs) best_lemma =
     (case map_of (infcounts mdl) (drop c a) of
        None \<Rightarrow> lemmatize_loop mdl inflected a cs best_lemma
      | Some pB \<Rightarrow>
          (case map_of (replacements mdl) (drop c a) of
             None \<Rightarrow> lemmatize_loop mdl inflected a cs best_lemma
           | Some inner \<Rightarrow>
               (case lemmatize_candidates mdl a c (compute_prob pB) inner
                       (best_lemma, Finite False 0, False) of
                  (best_lemma', best_prob, iter_found) \<Rightarrow>
                    if iter_found then substr best_lemma' 1
                    else lemmatize_loop mdl inflected a cs best_lemma')))"

definition lemmatize :: "Model \<Rightarrow> bytes \<Rightarrow> error + bytes" where
  "lemmatize mdl inflected =
     (let a = trim (0x24 # inflected)
      in case store_codepoints a of
           None \<Rightarrow> Inl DecodeError
         | Some cps \<Rightarrow> lemmatize_loop mdl inflected a (cps @ [length a]) [])"

subsection \<open>trim\<close>

text \<open>The erase loops over the flat tables and over the nested table.\<close>

fun trim_counts :: "count_table \<Rightarrow> count_table" where
  "trim_counts [] = []"
| "trim_counts ((k, p) # xs) = (if fst p = 0 then trim_counts xs else (k, p) # trim_counts xs)"

fun trim_replacements :: "(bytes \<times> count_table) list \<Rightarrow> (bytes \<times> count_table) list" where
  "trim_replacements [] = []"
| "trim_replacements ((k, inner) # xs) =
     (let inner' = trim_counts inner
      in if length inner' = 0 then trim_replacements xs else (k, inner') # trim_replacements xs)"

definition Model_trim :: "Model \<Rightarrow> Model" where
  "Model_trim mdl =
     (if is_trimmed mdl then mdl
      else mdl\<lparr>is_trimmed := True,
               lemcounts := trim_counts (lemcounts mdl),
               infcounts := trim_counts (infcounts mdl),
               replacements := trim_replacements (replacements mdl)\<rparr>)"

section \<open>Other model related methods\<close>

subsection \<open>save\<close>

text \<open>\<open>%ld\<close> of \<open>fprintf\<close>: the decimal digits, with a minus sign for a negative value.\<close>

function digits :: "nat \<Rightarrow> bytes" where
  "digits n = (if n < 10 then [0x30 + of_nat n] else digits (n div 10) @ [0x30 + of_nat (n mod 10)])"
  by pat_completeness auto
termination
  by (relation "measure id") auto

declare digits.simps [simp del]

definition print_long :: "int \<Rightarrow> bytes" where
  "print_long x = (if x < 0 then 0x2D # digits (nat (- x)) else digits (nat x))"

text \<open>\<open>%s\<close> of \<open>s.c_str()\<close>: the bytes before the first zero byte.\<close>

definition print_str :: "bytes \<Rightarrow> bytes" where
  "print_str s = takeWhile (\<lambda>c. c \<noteq> 0) s"

definition save_counts :: "count_table \<Rightarrow> bytes" where
  "save_counts t =
     concat (map (\<lambda>(k, p). print_str k @ [0x09] @ print_long (fst p) @ [0x09] @
                            print_long (snd p) @ [0x0A]) t)"

definition save :: "Model \<Rightarrow> bytes" where
  "save model =
     print_long (int (max_suffix_size model)) @ [0x09] @
       print_long (if is_trimmed model then 1 else 0) @ [0x0A] @
     print_long (int (length (lemcounts model))) @ [0x0A] @
     save_counts (lemcounts model) @
     print_long (int (length (infcounts model))) @ [0x0A] @
     save_counts (infcounts model) @
     print_long (int (length (replacements model))) @ [0x0A] @
     concat (map (\<lambda>(k, inner). print_str k @ [0x09] @ print_long (int (length inner)) @ [0x0A] @
                                save_counts inner) (replacements model))"

subsection \<open>load\<close>

text \<open>
  The conversions of \<open>fscanf\<close> that \<open>load\<close> uses, on the rest of the file. \<open>%ld\<close>
  and \<open>%d\<close> skip white space, then read an optional sign and at least one digit. A
  white-space directive of the format skips any white space. \<open>%1024[^\t]\<close> reads up
  to 1024 bytes other than a tab, and fails when there is none; it does not skip white
  space. A suppressed scanset at the end of a format only moves the position. A
  conversion that fails ends the call, which then returns too few items; the input
  is the whole file, so reaching its end is the failure of the conversion at hand.
  Numbers beyond the range of \<open>long\<close> are not modelled.
\<close>

definition isdigit :: "byte \<Rightarrow> bool" where
  "isdigit c = (0x30 \<le> c \<and> c \<le> 0x39)"

definition digits_value :: "bytes \<Rightarrow> int" where
  "digits_value ds = foldl (\<lambda>acc c. 10 * acc + uint (c - 0x30)) 0 ds"

definition scan_unsigned :: "bool \<Rightarrow> bytes \<Rightarrow> (int \<times> bytes) option" where
  "scan_unsigned neg r =
     (let ds = takeWhile isdigit r
      in if ds = [] then None
         else Some (if neg then - digits_value ds else digits_value ds, dropWhile isdigit r))"

definition scan_long :: "bytes \<Rightarrow> (int \<times> bytes) option" where
  "scan_long input =
     (case dropWhile isspace input of
        [] \<Rightarrow> None
      | c # r \<Rightarrow>
          if c = 0x2D then scan_unsigned True r
          else if c = 0x2B then scan_unsigned False r
          else scan_unsigned False (c # r))"

definition scan_space :: "bytes \<Rightarrow> bytes" where
  "scan_space input = dropWhile isspace input"

definition scan_field :: "bytes \<Rightarrow> (bytes \<times> bytes) option" where
  "scan_field input =
     (let item = takeWhile (\<lambda>c. c \<noteq> 0x09) (take 1024 input)
      in if item = [] then None else Some (item, drop (length item) input))"

text \<open>\<open>fscanf(fin, "%ld\t%d%*[\n]", &maxsuf, &trimmed)\<close>\<close>

definition scan_header :: "bytes \<Rightarrow> (int \<times> int \<times> bytes) option" where
  "scan_header input =
     (case scan_long input of
        None \<Rightarrow> None
      | Some (maxsuf, r1) \<Rightarrow>
          (case scan_long (scan_space r1) of
             None \<Rightarrow> None
           | Some (trimmed, r2) \<Rightarrow> Some (maxsuf, trimmed, dropWhile (\<lambda>c. c = 0x0A) r2)))"

text \<open>\<open>fscanf(fin, "%ld%*[\n]", &num)\<close>\<close>

definition scan_number :: "bytes \<Rightarrow> (int \<times> bytes) option" where
  "scan_number input =
     (case scan_long input of
        None \<Rightarrow> None
      | Some (num, r) \<Rightarrow> Some (num, dropWhile (\<lambda>c. c = 0x0A) r))"

text \<open>\<open>fscanf(fin, "%1024[^\t]\t%ld\t%ld%*[^\n]", lemma, &tp, &fp)\<close>\<close>

definition scan_entry :: "bytes \<Rightarrow> (bytes \<times> int \<times> int \<times> bytes) option" where
  "scan_entry input =
     (case scan_field input of
        None \<Rightarrow> None
      | Some (field, r1) \<Rightarrow>
          (case scan_long (scan_space r1) of
             None \<Rightarrow> None
           | Some (tp, r2) \<Rightarrow>
               (case scan_long (scan_space r2) of
                  None \<Rightarrow> None
                | Some (fp, r3) \<Rightarrow> Some (field, tp, fp, dropWhile (\<lambda>c. c \<noteq> 0x0A) r3))))"

text \<open>\<open>fscanf(fin, "%1024[^\t]\t%ld%*[^\n]", inflected, &numlems)\<close>\<close>

definition scan_key :: "bytes \<Rightarrow> (bytes \<times> int \<times> bytes) option" where
  "scan_key input =
     (case scan_field input of
        None \<Rightarrow> None
      | Some (field, r1) \<Rightarrow>
          (case scan_long (scan_space r1) of
             None \<Rightarrow> None
           | Some (numlems, r2) \<Rightarrow> Some (field, numlems, dropWhile (\<lambda>c. c \<noteq> 0x0A) r2)))"

text \<open>
  \<open>lem = lemma; lem = suflem::trim(lem)\<close>: the buffer is a C string, so the copy
  stops at a zero byte.
\<close>

definition field_string :: "bytes \<Rightarrow> bytes" where
  "field_string field = trim (takeWhile (\<lambda>c. c \<noteq> 0) field)"

text \<open>The loops \<open>for (long i = 0; i < num; ++i)\<close>, counting down the iterations left.\<close>

fun load_counts ::
  "(Model \<Rightarrow> bytes \<Rightarrow> int \<Rightarrow> int \<Rightarrow> Model) \<Rightarrow> nat \<Rightarrow> Model \<Rightarrow> bytes \<Rightarrow> error + Model \<times> bytes" where
  "load_counts upd 0 model input = Inr (model, input)"
| "load_counts upd (Suc n) model input =
     (case scan_entry input of
        None \<Rightarrow> Inl ReadError
      | Some (field, tp, fp, r) \<Rightarrow> load_counts upd n (upd model (field_string field) tp fp) r)"

fun load_replacements :: "nat \<Rightarrow> Model \<Rightarrow> bytes \<Rightarrow> error + Model \<times> bytes" where
  "load_replacements 0 model input = Inr (model, input)"
| "load_replacements (Suc n) model input =
     (case scan_key input of
        None \<Rightarrow> Inl ReadError
      | Some (field, numlems, r) \<Rightarrow>
          (case load_counts (\<lambda>m l tp fp. update_replacement m (field_string field) l tp fp)
                  (nat numlems) model r of
             Inl err \<Rightarrow> Inl err
           | Inr (model', r') \<Rightarrow> load_replacements n model' r'))"

text \<open>\<open>Model model(maxsuf)\<close> converts the \<open>long\<close> to \<open>size_t\<close>.\<close>

definition size_t_of_long :: "int \<Rightarrow> nat" where
  "size_t_of_long x = nat (x mod 2 ^ 64)"

definition load :: "bytes \<Rightarrow> error + Model" where
  "load file =
     (case scan_header file of
        None \<Rightarrow> Inl ReadError
      | Some (maxsuf, trimmed, r0) \<Rightarrow>
          (case new_Model (size_t_of_long maxsuf) of
             Inl err \<Rightarrow> Inl err
           | Inr model0 \<Rightarrow>
               (case scan_number r0 of
                  None \<Rightarrow> Inl ReadError
                | Some (numlemmas, r1) \<Rightarrow>
                    (case load_counts update_lemma (nat numlemmas)
                            (model0\<lparr>is_trimmed := (trimmed \<noteq> 0)\<rparr>) r1 of
                       Inl err \<Rightarrow> Inl err
                     | Inr (model1, r2) \<Rightarrow>
                         (case scan_number r2 of
                            None \<Rightarrow> Inl ReadError
                          | Some (numinflections, r3) \<Rightarrow>
                              (case load_counts update_inflected (nat numinflections) model1 r3 of
                                 Inl err \<Rightarrow> Inl err
                               | Inr (model2, r4) \<Rightarrow>
                                   (case scan_number r4 of
                                      None \<Rightarrow> Inl ReadError
                                    | Some (numreplacements, r5) \<Rightarrow>
                                        (case load_replacements (nat numreplacements) model2 r5 of
                                           Inl err \<Rightarrow> Inl err
                                         | Inr (model3, r6) \<Rightarrow> Inr model3))))))))"

section \<open>Notions of the specification\<close>

subsection \<open>Table entries\<close>

text \<open>The count pair a table holds for a key: zero counts when the key is absent.\<close>

definition lookup :: "('k \<times> counts) list \<Rightarrow> 'k \<Rightarrow> counts" where
  "lookup t k = (case map_of t k of None \<Rightarrow> (0, 0) | Some p \<Rightarrow> p)"

text \<open>The inner table of an outer key of the nested table: empty when the key is absent.\<close>

definition inner_table :: "Model \<Rightarrow> bytes \<Rightarrow> count_table" where
  "inner_table mdl k = (case map_of (replacements mdl) k of None \<Rightarrow> [] | Some t \<Rightarrow> t)"

text \<open>Every count pair of the three tables.\<close>

definition all_counts :: "Model \<Rightarrow> counts list" where
  "all_counts mdl =
     map snd (lemcounts mdl) @ map snd (infcounts mdl) @
     concat (map (\<lambda>(k, t). map snd t) (replacements mdl))"

text \<open>
  The invariants of the data model: counts are not negative, and a store that is
  marked trimmed has no entry with a zero true-positive count.
\<close>

definition store_invariant :: "Model \<Rightarrow> bool" where
  "store_invariant mdl =
     (list_all (\<lambda>p. 0 \<le> fst p \<and> 0 \<le> snd p) (all_counts mdl) \<and>
      (is_trimmed mdl \<longrightarrow> list_all (\<lambda>p. fst p \<noteq> 0) (all_counts mdl)))"

text \<open>
  The nested table has an entry for a pair of suffixes; a store has every entry that
  iteration \<open>i\<close> of \<open>update\<close> writes.
\<close>

definition has_pair :: "(bytes \<times> count_table) list \<Rightarrow> bytes \<Rightarrow> bytes \<Rightarrow> bool" where
  "has_pair r k l = (case map_of r k of None \<Rightarrow> False | Some t \<Rightarrow> map_of t l \<noteq> None)"

definition has_entries :: "update_env \<Rightarrow> Model \<Rightarrow> int \<Rightarrow> bool" where
  "has_entries e s i =
     (map_of (lemcounts s) (infsuf e i) \<noteq> None \<and> map_of (lemcounts s) (lemsuf e i) \<noteq> None \<and>
      map_of (infcounts s) (infsuf e i) \<noteq> None \<and> map_of (infcounts s) (lemsuf e i) \<noteq> None \<and>
      has_pair (replacements s) (infsuf e i) (lemsuf e i))"

subsection \<open>Stores that training builds\<close>

text \<open>
  \<open>Model::train\<close> constructs a store and calls \<open>update\<close> for every line of the
  corpus, after it has checked that the count is positive; the command line then
  calls \<open>trim\<close>. The marker \<open>$\<close> is not a byte of the corpus: the engine
  reserves it.
\<close>

inductive trained :: "Model \<Rightarrow> bool" where
  trained_new: "new_Model sz = Inr mdl \<Longrightarrow> trained mdl"
| trained_update:
    "trained mdl \<Longrightarrow> 0x24 \<notin> set inflected \<Longrightarrow> 0x24 \<notin> set lemma \<Longrightarrow> 0 < c \<Longrightarrow>
     update mdl inflected lemma c = Inr mdl' \<Longrightarrow> trained mdl'"
| trained_trim: "trained mdl \<Longrightarrow> trained (Model_trim mdl)"



subsection \<open>UTF-8\<close>

text \<open>A continuation byte is \<open>10xxxxxx\<close>.\<close>

definition is_continuation :: "byte \<Rightarrow> bool" where
  "is_continuation c = (drop_bit 6 c = 0x2)"

text \<open>
  The length of the sequence that a lead byte announces: \<open>0xxxxxxx\<close>, \<open>110xxxxx\<close>,
  \<open>1110xxxx\<close>, \<open>11110xxx\<close>, \<open>111110xx\<close>, \<open>1111110x\<close>.
\<close>

definition sequence_length :: "byte \<Rightarrow> nat option" where
  "sequence_length c =
     (if drop_bit 7 c = 0 then Some 1
      else if drop_bit 5 c = 0x6 then Some 2
      else if drop_bit 4 c = 0xE then Some 3
      else if drop_bit 3 c = 0x1E then Some 4
      else if drop_bit 2 c = 0x3E then Some 5
      else if drop_bit 1 c = 0x7E then Some 6
      else None)"

text \<open>
  A string is a sequence of complete codepoints: each lead byte is followed by as many
  continuation bytes as it announces. Every string that RFC 3629 accepts is of this
  form (the RFC excludes more: overlong forms, surrogates, sequences of 5 and 6 bytes).
\<close>

function valid_utf8 :: "bytes \<Rightarrow> bool" where
  "valid_utf8 [] = True"
| "valid_utf8 (c # cs) =
     (case sequence_length c of
        None \<Rightarrow> False
      | Some n \<Rightarrow> n - 1 \<le> length cs \<and> list_all is_continuation (take (n - 1) cs) \<and>
                  valid_utf8 (drop (n - 1) cs))"
  by pat_completeness auto
termination
  by (relation "measure length") auto

subsection \<open>Shared leading codepoints\<close>

text \<open>
  The codepoints of a string, cut at the offsets of its index list (the sentinel
  closes the last one), and the number of leading codepoints that two strings share
  verbatim.
\<close>

definition spans :: "bytes \<Rightarrow> nat list \<Rightarrow> bytes list" where
  "spans s codepoints = map (\<lambda>(i, j). take (j - i) (drop i s)) (zip codepoints (tl codepoints))"

definition shared_codepoints :: "bytes \<Rightarrow> bytes \<Rightarrow> nat list \<Rightarrow> nat list \<Rightarrow> nat" where
  "shared_codepoints a b acodepoints bcodepoints =
     length (takeWhile (\<lambda>(x, y). x = y) (zip (spans a acodepoints) (spans b bcodepoints)))"

subsection \<open>The lemma that lemmatize selects\<close>

text \<open>
  The candidate lemma suffixes of an inflected suffix with their scores
  \<open>prAB = (prBA * prA) / prB\<close>, in the order of the nested table; a candidate without
  an entry in \<open>lemcounts\<close> is skipped, and so is a suffix without an entry in
  \<open>infcounts\<close> or in \<open>replacements\<close>.
\<close>

definition scored_candidates :: "Model \<Rightarrow> bytes \<Rightarrow> (bytes \<times> double) list" where
  "scored_candidates mdl suf =
     (case map_of (infcounts mdl) suf of
        None \<Rightarrow> []
      | Some pB \<Rightarrow>
          (case map_of (replacements mdl) suf of
             None \<Rightarrow> []
           | Some inner \<Rightarrow>
               List.map_filter
                 (\<lambda>(ls, p). case map_of (lemcounts mdl) ls of
                     None \<Rightarrow> None
                   | Some q \<Rightarrow>
                       Some (ls, double_div (double_mult (compute_prob p) (compute_prob q))
                                   (compute_prob pB)))
                 inner))"




section \<open>Properties of the frequency store\<close>

subsection \<open>The update primitives\<close>

lemma map_of_entry_update:
  "map_of (entry_update k f d xs) =
     (map_of xs)(k \<mapsto> f (case map_of xs k of None \<Rightarrow> d | Some v \<Rightarrow> v))"
  by (induction xs) (auto simp: fun_eq_iff)

text \<open>
  Claim C7, as amended. The three primitives \<open>update_replacement\<close>,
  \<open>update_inflected\<close> and \<open>update_lemma\<close> never look at \<open>is_trimmed\<close>: on every
  store, trimmed or not, they add \<open>tp\<close> and \<open>fp\<close> to the entry of the key, which
  starts from zero counts when the key is absent, and leave every other entry and every
  other field as it is. Only \<open>update\<close> rejects a trimmed store.
\<close>

theorem primitives_accumulate:
  "map_of (lemcounts (update_lemma mdl k tp fp)) =
     (map_of (lemcounts mdl))(k \<mapsto> add_counts tp fp (lookup (lemcounts mdl) k)) \<and>
   map_of (infcounts (update_inflected mdl k tp fp)) =
     (map_of (infcounts mdl))(k \<mapsto> add_counts tp fp (lookup (infcounts mdl) k)) \<and>
   map_of (replacements (update_replacement mdl k l tp fp)) =
     (map_of (replacements mdl))(k \<mapsto> inner_table (update_replacement mdl k l tp fp) k) \<and>
   map_of (inner_table (update_replacement mdl k l tp fp) k) =
     (map_of (inner_table mdl k))(l \<mapsto> add_counts tp fp (lookup (inner_table mdl k) l)) \<and>
   update_lemma mdl k tp fp = mdl\<lparr>lemcounts := lemcounts (update_lemma mdl k tp fp)\<rparr> \<and>
   update_inflected mdl k tp fp = mdl\<lparr>infcounts := infcounts (update_inflected mdl k tp fp)\<rparr> \<and>
   update_replacement mdl k l tp fp =
     mdl\<lparr>replacements := replacements (update_replacement mdl k l tp fp)\<rparr> \<and>
   (is_trimmed mdl \<longrightarrow> update mdl inflected lemma c = Inl TrimmedModel)"
  by (auto simp: update_lemma_def update_inflected_def update_replacement_def update_def
      map_of_entry_update lookup_def inner_table_def split: option.splits)

text \<open>The theorem on a trimmed store: \<open>update\<close> fails, \<open>update_lemma\<close> adds.\<close>

theorem primitives_accumulate_witness:
  "is_trimmed ((init_Model 8)\<lparr>is_trimmed := True\<rparr>) \<and>
   update ((init_Model 8)\<lparr>is_trimmed := True\<rparr>) (bytes_of ''ab'') (bytes_of ''a'') 1 =
     Inl TrimmedModel \<and>
   map_of (lemcounts (update_lemma ((init_Model 8)\<lparr>is_trimmed := True\<rparr>) (bytes_of ''a'') 2 3))
     (bytes_of ''a'') = Some (2, 3)"
  using primitives_accumulate [of "(init_Model 8)\<lparr>is_trimmed := True\<rparr>" "bytes_of ''a''" 2 3
      "bytes_of ''a''" "bytes_of ''ab''" "bytes_of ''a''" 1]
  by (simp add: init_Model_def lookup_def add_counts_def)

text \<open>
  Claim C7 as stated fails: on a store whose \<open>is_trimmed\<close> is true each primitive
  returns normally, with the new entry in its table.
\<close>

theorem primitives_on_trimmed_counterexample:
  "is_trimmed ((init_Model 8)\<lparr>is_trimmed := True\<rparr>) \<and>
   lemcounts (update_lemma ((init_Model 8)\<lparr>is_trimmed := True\<rparr>) (bytes_of ''a'') 1 0) =
     [(bytes_of ''a'', (1, 0))] \<and>
   infcounts (update_inflected ((init_Model 8)\<lparr>is_trimmed := True\<rparr>) (bytes_of ''a'') 1 0) =
     [(bytes_of ''a'', (1, 0))] \<and>
   replacements
     (update_replacement ((init_Model 8)\<lparr>is_trimmed := True\<rparr>) (bytes_of ''b'') (bytes_of ''a'') 1 0) =
     [(bytes_of ''b'', [(bytes_of ''a'', (1, 0))])]"
  by (simp add: init_Model_def update_lemma_def update_inflected_def update_replacement_def
      add_counts_def)

subsection \<open>Iterations of the training loop commute\<close>

lemma entry_update_twice:
  "entry_update k g d (entry_update k f d xs) = entry_update k (\<lambda>v. g (f v)) d xs"
  by (induction xs) auto

lemma entry_update_comm:
  assumes "map_of xs k' \<noteq> None"
    and "k = k' \<Longrightarrow> \<forall>v. map_of xs k = Some v \<longrightarrow> g (f v) = f (g v)"
  shows "entry_update k' g d' (entry_update k f d xs) = entry_update k f d (entry_update k' g d' xs)"
  using assms
proof (induction xs)
  case Nil
  then show ?case by simp
next
  case (Cons x xs)
  then show ?case
    by (cases x) (auto simp: map_of_entry_update)
qed

lemma add_counts_comm: "add_counts a b (add_counts c d p) = add_counts c d (add_counts a b p)"
  by (simp add: add_counts_def)

lemma add_counts_add: "add_counts a b (add_counts c d p) = add_counts (c + a) (d + b) p"
  by (simp add: add_counts_def)

lemma count_update_comm:
  "map_of t k' \<noteq> None \<Longrightarrow>
   entry_update k' (add_counts a b) (0, 0) (entry_update k (add_counts c d) (0, 0) t) =
   entry_update k (add_counts c d) (0, 0) (entry_update k' (add_counts a b) (0, 0) t)"
  by (rule entry_update_comm) (auto simp: add_counts_comm)

lemma count_update2_comm:
  assumes "map_of t k1 \<noteq> None" "map_of t k2 \<noteq> None"
  shows "entry_update k1 (add_counts a b) (0, 0) (entry_update k2 (add_counts a' b') (0, 0)
           (entry_update k3 (add_counts x y) (0, 0) (entry_update k4 (add_counts x' y') (0, 0) t))) =
         entry_update k3 (add_counts x y) (0, 0) (entry_update k4 (add_counts x' y') (0, 0)
           (entry_update k1 (add_counts a b) (0, 0) (entry_update k2 (add_counts a' b') (0, 0) t)))"
proof -
  let ?U = "\<lambda>k a b. entry_update k (add_counts a b) (0, 0)"
  have "?U k2 a' b' (?U k3 x y (?U k4 x' y' t)) = ?U k3 x y (?U k2 a' b' (?U k4 x' y' t))"
    using assms by (intro count_update_comm) (simp add: map_of_entry_update)
  also have "?U k2 a' b' (?U k4 x' y' t) = ?U k4 x' y' (?U k2 a' b' t)"
    using assms by (intro count_update_comm)
  finally have 1: "?U k2 a' b' (?U k3 x y (?U k4 x' y' t)) = ?U k3 x y (?U k4 x' y' (?U k2 a' b' t))" .
  have "?U k1 a b (?U k3 x y (?U k4 x' y' (?U k2 a' b' t))) =
        ?U k3 x y (?U k1 a b (?U k4 x' y' (?U k2 a' b' t)))"
    using assms by (intro count_update_comm) (simp add: map_of_entry_update)
  also have "?U k1 a b (?U k4 x' y' (?U k2 a' b' t)) = ?U k4 x' y' (?U k1 a b (?U k2 a' b' t))"
    using assms by (intro count_update_comm) (simp add: map_of_entry_update)
  finally show ?thesis
    by (simp only: 1)
qed

lemma count_update2_add:
  "entry_update k1 (add_counts a b) (0, 0) (entry_update k2 (add_counts a' b') (0, 0)
     (entry_update k1 (add_counts x y) (0, 0) (entry_update k2 (add_counts x' y') (0, 0) t))) =
   entry_update k1 (add_counts (x + a) (y + b)) (0, 0)
     (entry_update k2 (add_counts (x' + a') (y' + b')) (0, 0) t)"
proof -
  have "entry_update k2 (add_counts a' b') (0, 0)
          (entry_update k1 (add_counts x y) (0, 0) (entry_update k2 (add_counts x' y') (0, 0) t)) =
        entry_update k1 (add_counts x y) (0, 0) (entry_update k2 (add_counts a' b') (0, 0)
          (entry_update k2 (add_counts x' y') (0, 0) t))"
    by (rule count_update_comm) (simp add: map_of_entry_update)
  then show ?thesis
    by (simp add: entry_update_twice add_counts_add)
qed

lemma pair_update_comm:
  assumes "has_pair r k' l'"
  shows "entry_update k' (entry_update l' (add_counts a b) (0, 0)) []
           (entry_update k (entry_update l (add_counts c d) (0, 0)) [] r) =
         entry_update k (entry_update l (add_counts c d) (0, 0)) []
           (entry_update k' (entry_update l' (add_counts a b) (0, 0)) [] r)"
proof (rule entry_update_comm)
  from assms show "map_of r k' \<noteq> None"
    by (auto simp: has_pair_def split: option.splits)
next
  assume "k = k'"
  with assms show "\<forall>v. map_of r k = Some v \<longrightarrow>
      entry_update l' (add_counts a b) (0, 0) (entry_update l (add_counts c d) (0, 0) v) =
      entry_update l (add_counts c d) (0, 0) (entry_update l' (add_counts a b) (0, 0) v)"
    by (auto simp: has_pair_def intro!: count_update_comm)
qed

lemma has_pair_entry_update:
  "has_pair (entry_update k (entry_update l f d) [] r) k' l' = (has_pair r k' l' \<or> (k' = k \<and> l' = l))"
  by (auto simp: has_pair_def map_of_entry_update split: option.splits)

lemma update_body_tables:
  "update_body e s i =
     s\<lparr>replacements :=
         entry_update (infsuf e i)
           (entry_update (lemsuf e i)
             (add_counts (if i \<le> prefixsize e - 1 then count e else 0)
                         (if i \<le> prefixsize e - 1 then 0 else count e)) (0, 0)) []
           (replacements s),
       lemcounts :=
         entry_update (infsuf e i) (add_counts 0 (count e)) (0, 0)
           (entry_update (lemsuf e i) (add_counts (count e) 0) (0, 0) (lemcounts s)),
       infcounts :=
         entry_update (lemsuf e i) (add_counts 0 (count e)) (0, 0)
           (entry_update (infsuf e i) (add_counts (count e) 0) (0, 0) (infcounts s))\<rparr>"
  by (simp add: update_body_def update_replacement_def update_lemma_def update_inflected_def Let_def)

lemma suf_count [simp]:
  "infsuf (e\<lparr>count := c\<rparr>) i = infsuf e i" "lemsuf (e\<lparr>count := c\<rparr>) i = lemsuf e i"
  by (simp_all add: infsuf_def lemsuf_def)

lemma has_entries_count [simp]: "has_entries (e\<lparr>count := c\<rparr>) s i = has_entries e s i"
  by (simp add: has_entries_def)

lemma has_entries_body_same: "has_entries e (update_body (e\<lparr>count := c\<rparr>) s i) i"
  by (simp add: has_entries_def update_body_tables map_of_entry_update has_pair_entry_update)

lemma has_entries_body_keep:
  "has_entries e s j \<Longrightarrow> has_entries e (update_body (e\<lparr>count := c\<rparr>) s i) j"
  by (simp add: has_entries_def update_body_tables map_of_entry_update has_pair_entry_update)

lemma update_body_comm:
  assumes "has_entries e s j"
  shows "update_body (e\<lparr>count := c2\<rparr>) (update_body (e\<lparr>count := c1\<rparr>) s i) j =
         update_body (e\<lparr>count := c1\<rparr>) (update_body (e\<lparr>count := c2\<rparr>) s j) i"
  using assms unfolding update_body_tables has_entries_def
  by (simp add: count_update2_comm pair_update_comm)

lemma update_body_add:
  "update_body (e\<lparr>count := c2\<rparr>) (update_body (e\<lparr>count := c1\<rparr>) s i) i =
   update_body (e\<lparr>count := c1 + c2\<rparr>) s i"
  unfolding update_body_tables
  by (simp add: count_update2_add entry_update_twice add_counts_add)

lemma foldl_body_push:
  "has_entries e s j \<Longrightarrow>
   update_body (e\<lparr>count := c2\<rparr>) (foldl (update_body (e\<lparr>count := c1\<rparr>)) s is) j =
   foldl (update_body (e\<lparr>count := c1\<rparr>)) (update_body (e\<lparr>count := c2\<rparr>) s j) is"
proof (induction "is" arbitrary: s)
  case Nil
  then show ?case by simp
next
  case (Cons i "is")
  then show ?case
    by (simp add: has_entries_body_keep update_body_comm)
qed

lemma foldl_body_add:
  "foldl (update_body (e\<lparr>count := c2\<rparr>)) (foldl (update_body (e\<lparr>count := c1\<rparr>)) s is) is =
   foldl (update_body (e\<lparr>count := c1 + c2\<rparr>)) s is"
proof (induction "is" arbitrary: s)
  case Nil
  then show ?case by simp
next
  case (Cons i "is")
  have "foldl (update_body (e\<lparr>count := c2\<rparr>))
          (foldl (update_body (e\<lparr>count := c1\<rparr>)) s (i # is)) (i # is) =
        foldl (update_body (e\<lparr>count := c2\<rparr>))
          (update_body (e\<lparr>count := c2\<rparr>)
             (foldl (update_body (e\<lparr>count := c1\<rparr>)) (update_body (e\<lparr>count := c1\<rparr>) s i) is) i) is"
    by simp
  also have "\<dots> = foldl (update_body (e\<lparr>count := c2\<rparr>))
          (foldl (update_body (e\<lparr>count := c1\<rparr>))
             (update_body (e\<lparr>count := c2\<rparr>) (update_body (e\<lparr>count := c1\<rparr>) s i) i) is) is"
    by (simp add: foldl_body_push has_entries_body_same)
  also have "\<dots> = foldl (update_body (e\<lparr>count := c1 + c2\<rparr>)) (update_body (e\<lparr>count := c1 + c2\<rparr>) s i) is"
    by (simp add: update_body_add Cons.IH)
  finally show ?case by simp
qed

subsection \<open>Trimming\<close>

lemma trim_counts_filter: "trim_counts t = filter (\<lambda>(k, p). fst p \<noteq> 0) t"
  by (induction t) auto

lemma trim_replacements_filter:
  "trim_replacements r =
     filter (\<lambda>(k, t). t \<noteq> []) (map (\<lambda>(k, t). (k, filter (\<lambda>(l, p). fst p \<noteq> 0) t)) r)"
  by (induction r) (auto simp: trim_counts_filter Let_def)

lemma set_all_counts_trim:
  "\<not> is_trimmed mdl \<Longrightarrow>
   set (all_counts (Model_trim mdl)) \<subseteq> {p \<in> set (all_counts mdl). fst p \<noteq> 0}"
  unfolding all_counts_def Model_trim_def trim_counts_filter trim_replacements_filter
  by (auto simp: image_iff) force+

lemma all_counts_trim_pos:
  assumes "list_all (\<lambda>p. 0 \<le> fst p \<and> 0 \<le> snd p) (all_counts mdl)" "\<not> is_trimmed mdl"
  shows "list_all (\<lambda>p. 0 < fst p) (all_counts (Model_trim mdl))"
  unfolding list_all_iff
proof
  fix p assume "p \<in> set (all_counts (Model_trim mdl))"
  with set_all_counts_trim [OF assms(2)] have "p \<in> set (all_counts mdl)" "fst p \<noteq> 0"
    by auto
  with assms(1) show "0 < fst p"
    by (auto simp: list_all_iff)
qed

lemma all_counts_trimmed_pos:
  assumes "store_invariant mdl" "is_trimmed mdl"
  shows "list_all (\<lambda>p. 0 < fst p) (all_counts (Model_trim mdl))"
  using assms by (fastforce simp: store_invariant_def Model_trim_def list_all_iff)

section \<open>Properties of the segmenter\<close>

subsection \<open>Lead bytes and continuation bytes\<close>

lemma byte_drop_bit_eq:
  fixes c :: byte
  shows "(drop_bit n c = k) = (unat c div 2 ^ n = unat k)"
proof -
  have "unat (drop_bit n c) = unat c div 2 ^ n"
    by (subst unat_drop_bit_eq) (simp add: drop_bit_eq_div)
  then show ?thesis
    by (simp only: word_unat_eq_iff)
qed

lemma div_ranges:
  fixes x :: nat
  shows "(x div 128 = 0) = (x < 128)"
    and "(x div 64 = 2) = (128 \<le> x \<and> x < 192)"
    and "(x div 32 = 6) = (192 \<le> x \<and> x < 224)"
    and "(x div 16 = 14) = (224 \<le> x \<and> x < 240)"
    and "(x div 8 = 30) = (240 \<le> x \<and> x < 248)"
    and "(x div 4 = 62) = (248 \<le> x \<and> x < 252)"
    and "(x div 2 = 126) = (252 \<le> x \<and> x < 254)"
  by auto

lemma found_start_iff:
  "found_start c =
     (drop_bit 7 c = 0 \<or> drop_bit 5 c = 0x6 \<or> drop_bit 4 c = 0xE \<or> drop_bit 3 c = 0x1E \<or>
      drop_bit 2 c = 0x3E \<or> drop_bit 1 c = 0x7E)"
  by (simp add: found_start_def shift_def masks_def)

lemma unat_byte_less: "unat (c :: byte) < 256"
  using unsigned_less [of c, where 'a = nat] by simp

lemma found_start_range: "found_start c = (unat c < 128 \<or> (192 \<le> unat c \<and> unat c < 254))"
  unfolding found_start_iff byte_drop_bit_eq by (simp add: div_ranges) linarith

lemma is_continuation_range: "is_continuation c = (128 \<le> unat c \<and> unat c < 192)"
  unfolding is_continuation_def byte_drop_bit_eq by (simp add: div_ranges)

lemma not_start_not_continuation:
  "(\<not> found_start c \<and> \<not> is_continuation c) = (c = 0xFE \<or> c = 0xFF)"
  using unat_byte_less [of c]
  unfolding found_start_range is_continuation_range word_unat_eq_iff by simp linarith

lemma found_start_sequence_length: "found_start c = (sequence_length c \<noteq> None)"
  by (simp add: found_start_iff sequence_length_def)

subsection \<open>The loop of store_codepoints\<close>

lemma store_codepoints_loop_None:
  "store_codepoints_loop i cs v = None \<longleftrightarrow>
     (i = 0 \<and> cs \<noteq> [] \<and> \<not> found_start (hd cs)) \<or>
     (\<exists>c \<in> set cs. \<not> found_start c \<and> \<not> is_continuation c)"
  by (induction cs arbitrary: i v) (auto simp: is_continuation_def)

lemma store_codepoints_loop_prefix:
  "store_codepoints_loop i cs v = Some r \<Longrightarrow> \<exists>w. r = v @ w"
proof (induction cs arbitrary: i v)
  case Nil
  then show ?case by simp
next
  case (Cons c cs)
  show ?case
  proof (cases "found_start c")
    case True
    with Cons.prems have "store_codepoints_loop (i + 1) cs (v @ [i]) = Some r"
      by simp
    from Cons.IH [OF this] obtain w where "r = (v @ [i]) @ w" ..
    then have "r = v @ (i # w)"
      by simp
    then show ?thesis ..
  next
    case False
    with Cons.prems have "store_codepoints_loop (i + 1) cs v = Some r"
      by (simp split: if_splits)
    from Cons.IH [OF this] show ?thesis .
  qed
qed

lemma store_codepoints_loop_sorted:
  "store_codepoints_loop i cs v = Some r \<Longrightarrow> sorted_wrt (<) v \<Longrightarrow> \<forall>x \<in> set v. x < i \<Longrightarrow>
   sorted_wrt (<) r \<and> (\<forall>x \<in> set r. x < i + length cs)"
proof (induction cs arbitrary: i v)
  case Nil
  then show ?case by simp
next
  case (Cons c cs)
  show ?case
  proof (cases "found_start c")
    case True
    with Cons.prems have "store_codepoints_loop (i + 1) cs (v @ [i]) = Some r"
      by simp
    moreover from Cons.prems have "sorted_wrt (<) (v @ [i])" "\<forall>x \<in> set (v @ [i]). x < i + 1"
      by (auto simp: sorted_wrt_append)
    ultimately show ?thesis
      using Cons.IH [of "i + 1" "v @ [i]"] by simp
  next
    case False
    with Cons.prems have "store_codepoints_loop (i + 1) cs v = Some r"
      by (simp split: if_splits)
    moreover from Cons.prems have "\<forall>x \<in> set v. x < i + 1"
      by auto
    ultimately show ?thesis
      using Cons.IH [of "i + 1" v] Cons.prems(2) by simp
  qed
qed

lemma store_codepoints_sorted:
  assumes "store_codepoints s = Some v"
  shows "sorted_wrt (<) (v @ [length s])"
  using store_codepoints_loop_sorted [of 0 s "[]" v] assms
  by (auto simp: store_codepoints_def sorted_wrt_append)

lemma store_codepoints_first:
  assumes "store_codepoints s = Some v"
  shows "\<exists>t. v @ [length s] = 0 # t"
proof (cases s)
  case Nil
  with assms show ?thesis
    by (simp add: store_codepoints_def)
next
  case (Cons c cs)
  with assms have "store_codepoints_loop 1 cs [0] = Some v"
    by (simp add: store_codepoints_def split: if_splits)
  from store_codepoints_loop_prefix [OF this] show ?thesis
    by auto
qed

lemma valid_utf8_bytes:
  "valid_utf8 s \<Longrightarrow> (s = [] \<or> found_start (hd s)) \<and> (\<forall>c \<in> set s. found_start c \<or> is_continuation c)"
proof (induction s rule: valid_utf8.induct)
  case 1
  then show ?case by simp
next
  case (2 c cs)
  from "2.prems" obtain n where n: "sequence_length c = Some n" "n - 1 \<le> length cs"
    "list_all is_continuation (take (n - 1) cs)" "valid_utf8 (drop (n - 1) cs)"
    by (auto split: option.splits)
  from "2.IH" [OF n(1) n(4)] have "\<forall>x \<in> set (drop (n - 1) cs). found_start x \<or> is_continuation x"
    by simp
  moreover from n(3) have "\<forall>x \<in> set (take (n - 1) cs). is_continuation x"
    by (simp add: list_all_iff)
  moreover have "set cs = set (take (n - 1) cs) \<union> set (drop (n - 1) cs)"
    by (metis append_take_drop_id set_append)
  moreover from n(1) have "found_start c"
    by (simp add: found_start_sequence_length)
  ultimately show ?case
    by auto
qed

lemma valid_utf8_decodes: "valid_utf8 s \<Longrightarrow> store_codepoints s \<noteq> None"
  using valid_utf8_bytes [of s]
  by (auto simp: store_codepoints_def store_codepoints_loop_None)

text \<open>
  Claim C9, as amended. For a string of complete codepoints the segmenter succeeds,
  and the offsets with the sentinel appended increase strictly and end with the byte
  length. A string that starts with a continuation byte is rejected. But a string
  that ends in the middle of a sequence is not rejected for that: the segmenter
  fails exactly when the string starts with a continuation byte or holds a byte that
  is neither a lead byte nor a continuation byte (\<open>0xFE\<close> or \<open>0xFF\<close>).
\<close>

theorem store_codepoints_correct:
  "(valid_utf8 s \<longrightarrow>
      (\<exists>v. store_codepoints s = Some v \<and> sorted_wrt (<) (v @ [length s]) \<and>
           last (v @ [length s]) = length s)) \<and>
   (s \<noteq> [] \<and> is_continuation (hd s) \<longrightarrow> store_codepoints s = None) \<and>
   (store_codepoints s = None \<longleftrightarrow>
      (s \<noteq> [] \<and> is_continuation (hd s)) \<or> 0xFE \<in> set s \<or> 0xFF \<in> set s)"
proof -
  have "store_codepoints s = None \<longleftrightarrow>
      (s \<noteq> [] \<and> is_continuation (hd s)) \<or> 0xFE \<in> set s \<or> 0xFF \<in> set s"
  proof (cases s)
    case Nil
    then show ?thesis
      by (simp add: store_codepoints_def)
  next
    case (Cons c cs)
    have "\<not> found_start c \<longleftrightarrow> is_continuation c \<or> c = 0xFE \<or> c = 0xFF"
      using not_start_not_continuation [of c]
      by (auto simp: found_start_range is_continuation_range)
    with Cons show ?thesis
      unfolding store_codepoints_def store_codepoints_loop_None not_start_not_continuation
      by auto
  qed
  moreover have "valid_utf8 s \<Longrightarrow>
      \<exists>v. store_codepoints s = Some v \<and> sorted_wrt (<) (v @ [length s]) \<and>
           last (v @ [length s]) = length s"
    using valid_utf8_decodes [of s] store_codepoints_sorted [of s] by auto
  ultimately show ?thesis
    by blast
qed

text \<open>
  The theorem on the dollar sign followed by a two-byte codepoint, and on a lone
  continuation byte.
\<close>

theorem store_codepoints_correct_witness:
  "valid_utf8 [0x24, 0xC3, 0xA4] \<and>
   store_codepoints [0x24, 0xC3, 0xA4] = Some [0, 1] \<and>
   sorted_wrt (<) ([0, 1] @ [length [0x24 :: byte, 0xC3, 0xA4]]) \<and>
   [0x80 :: byte] \<noteq> [] \<and> is_continuation (hd [0x80]) \<and>
   store_codepoints [0x80] = None"
proof -
  have v: "valid_utf8 [0x24, 0xC3, 0xA4]"
    by code_simp
  have s: "store_codepoints [0x24, 0xC3, 0xA4] = Some [0, 1]"
    by code_simp
  have c: "[0x80 :: byte] \<noteq> [] \<and> is_continuation (hd [0x80])"
    by code_simp
  from store_codepoints_correct [of "[0x24, 0xC3, 0xA4]"] v s
  have "sorted_wrt (<) ([0, 1] @ [length [0x24 :: byte, 0xC3, 0xA4]])"
    by auto
  moreover from store_codepoints_correct [of "[0x80]"] c have "store_codepoints [0x80] = None"
    by blast
  ultimately show ?thesis
    using v s c by blast
qed

text \<open>
  Claim C9 as stated fails: the single byte \<open>0xC3\<close> announces a sequence of two
  bytes and the string ends there, so it is not a string of complete codepoints, yet
  the segmenter accepts it.
\<close>

theorem store_codepoints_counterexample:
  "sequence_length 0xC3 = Some 2 \<and> \<not> valid_utf8 [0xC3] \<and> store_codepoints [0xC3] = Some [0]"
  by code_simp

subsection \<open>Index lists of the examples\<close>

lemma cps_ab: "store_codepoints (0x24 # bytes_of ''ab'') = Some [0, 1, 2]"
  by code_simp

lemma cps_a: "store_codepoints (0x24 # bytes_of ''a'') = Some [0, 1]"
  by code_simp

lemma cps_cats: "store_codepoints (0x24 # bytes_of ''cats'') = Some [0, 1, 2, 3, 4]"
  by code_simp

lemma cps_cat: "store_codepoints (0x24 # bytes_of ''cat'') = Some [0, 1, 2, 3]"
  by code_simp

section \<open>Properties of common_prefix_size\<close>

lemma span_eq_iff:
  assumes "p \<le> x" "x \<le> length a" "x \<le> length b"
  shows "take (x - p) (drop p a) = take (x - p) (drop p b) \<longleftrightarrow>
         \<not> list_ex (\<lambda>i. char_at a i \<noteq> char_at b i) [p..<x]"
proof -
  have "take (x - p) (drop p a) = take (x - p) (drop p b) \<longleftrightarrow>
        (\<forall>k < x - p. a ! (p + k) = b ! (p + k))"
    using assms by (auto simp: list_eq_iff_nth_eq)
  also have "\<dots> \<longleftrightarrow> (\<forall>i. p \<le> i \<and> i < x \<longrightarrow> a ! i = b ! i)"
  proof
    assume h: "\<forall>k < x - p. a ! (p + k) = b ! (p + k)"
    show "\<forall>i. p \<le> i \<and> i < x \<longrightarrow> a ! i = b ! i"
    proof (intro allI impI)
      fix i assume "p \<le> i \<and> i < x"
      then have "i - p < x - p" "p + (i - p) = i"
        by auto
      with h show "a ! i = b ! i"
        by metis
    qed
  next
    assume "\<forall>i. p \<le> i \<and> i < x \<longrightarrow> a ! i = b ! i"
    then show "\<forall>k < x - p. a ! (p + k) = b ! (p + k)"
      by auto
  qed
  also have "\<dots> \<longleftrightarrow> \<not> list_ex (\<lambda>i. char_at a i \<noteq> char_at b i) [p..<x]"
    using assms by (auto simp: list_ex_iff char_at_def)
  finally show ?thesis .
qed

lemma span_length:
  assumes "p \<le> x" "x \<le> length a"
  shows "length (take (x - p) (drop p a)) = x - p"
  using assms by simp

lemma common_prefix_loop_spans:
  assumes "N = j + min (length xs) (length ys)"
    and "sorted (p # xs)" and "sorted (p # ys)"
    and "\<forall>x \<in> set xs. x \<le> length a" and "\<forall>y \<in> set ys. y \<le> length b"
  shows "common_prefix_loop N a b (zip xs ys) j p =
         j + length (takeWhile (\<lambda>(u, v). u = v) (zip (spans a (p # xs)) (spans b (p # ys))))"
  using assms
proof (induction xs arbitrary: ys j p)
  case Nil
  then show ?case
    by (simp add: spans_def)
next
  case (Cons x xs)
  show ?case
  proof (cases ys)
    case Nil
    with Cons.prems show ?thesis
      by (simp add: spans_def)
  next
    case (Cons y ys')
    note ys = this
    from Cons.prems ys have b: "p \<le> x" "p \<le> y" "x \<le> length a" "y \<le> length b"
      by auto
    have sp: "spans a (p # x # xs) = take (x - p) (drop p a) # spans a (x # xs)"
      "spans b (p # y # ys') = take (y - p) (drop p b) # spans b (y # ys')"
      by (simp_all add: spans_def)
    show ?thesis
    proof (cases "x = y")
      case False
      with b have "length (take (x - p) (drop p a)) \<noteq> length (take (y - p) (drop p b))"
        by simp
      then have "take (x - p) (drop p a) \<noteq> take (y - p) (drop p b)"
        by metis
      with False ys sp show ?thesis
        by simp
    next
      case True
      show ?thesis
      proof (cases "list_ex (\<lambda>i. char_at a i \<noteq> char_at b i) [p..<x]")
        case mismatch: True
        with span_eq_iff [of p x a b] b True
        have "take (x - p) (drop p a) \<noteq> take (y - p) (drop p b)"
          by simp
        with mismatch True ys sp show ?thesis
          by simp
      next
        case same: False
        with span_eq_iff [of p x a b] b True
        have eq: "take (x - p) (drop p a) = take (y - p) (drop p b)"
          by simp
        from Cons.prems ys have
          "N = (j + 1) + min (length xs) (length ys')" "sorted (x # xs)" "sorted (y # ys')"
          "\<forall>x \<in> set xs. x \<le> length a" "\<forall>y \<in> set ys'. y \<le> length b"
          by auto
        with True have "common_prefix_loop N a b (zip xs ys') (j + 1) x =
            (j + 1) + length (takeWhile (\<lambda>(u, v). u = v) (zip (spans a (x # xs)) (spans b (x # ys'))))"
          by (intro Cons.IH) auto
        with same True ys sp eq show ?thesis
          by simp
      qed
    qed
  qed
qed

lemma store_codepoints_bounds:
  assumes "store_codepoints s = Some v"
  shows "\<exists>t. v @ [length s] = 0 # t \<and> sorted (0 # t) \<and> (\<forall>x \<in> set t. x \<le> length s)"
proof -
  from store_codepoints_first [OF assms] obtain t where t: "v @ [length s] = 0 # t" ..
  from store_codepoints_sorted [OF assms] have s: "sorted_wrt (<) (v @ [length s])" .
  then have "sorted (v @ [length s])"
    by (rule strict_sorted_imp_sorted)
  moreover from s have "\<forall>x \<in> set (v @ [length s]). x \<le> length s"
    by (auto simp: sorted_wrt_append)
  ultimately show ?thesis
    using t by auto
qed

lemma common_prefix_size_shared:
  assumes "store_codepoints a = Some va" and "store_codepoints b = Some vb"
  shows "common_prefix_size a b (va @ [length a]) (vb @ [length b]) =
         shared_codepoints a b (va @ [length a]) (vb @ [length b]) + 1"
proof -
  from store_codepoints_bounds [OF assms(1)] obtain xs where
    xs: "va @ [length a] = 0 # xs" "sorted (0 # xs)" "\<forall>x \<in> set xs. x \<le> length a"
    by auto
  from store_codepoints_bounds [OF assms(2)] obtain ys where
    ys: "vb @ [length b] = 0 # ys" "sorted (0 # ys)" "\<forall>y \<in> set ys. y \<le> length b"
    by auto
  have "common_prefix_loop (1 + min (length xs) (length ys)) a b (zip xs ys) 1 0 =
        1 + length (takeWhile (\<lambda>(u, v). u = v) (zip (spans a (0 # xs)) (spans b (0 # ys))))"
    using xs(2,3) ys(2,3) by (intro common_prefix_loop_spans) auto
  then show ?thesis
    unfolding xs(1) ys(1) by (simp add: common_prefix_size_def shared_codepoints_def)
qed

text \<open>
  Claim C4, as amended. On two strings with the index lists that the segmenter
  gives them, sentinel appended, \<open>common_prefix_size\<close> returns one more than the
  number of leading codepoints that the strings share byte for byte: it counts the
  leading entries at which the two lists agree and before which the strings agree,
  and the first entry, offset 0, always is one. (The caller compares \<open>i\<close> with
  \<open>prefixsize - 1\<close>.)
\<close>

theorem common_prefix_size_correct:
  assumes "store_codepoints a = Some va" and "store_codepoints b = Some vb"
  shows "common_prefix_size a b (va @ [length a]) (vb @ [length b]) =
         shared_codepoints a b (va @ [length a]) (vb @ [length b]) + 1"
  using assms by (rule common_prefix_size_shared)

text \<open>The theorem on \<open>$cats\<close> and \<open>$cat\<close>: four codepoints are shared, the result is 5.\<close>

theorem common_prefix_size_correct_witness:
  "store_codepoints (0x24 # bytes_of ''cats'') = Some [0, 1, 2, 3, 4] \<and>
   store_codepoints (0x24 # bytes_of ''cat'') = Some [0, 1, 2, 3] \<and>
   shared_codepoints (0x24 # bytes_of ''cats'') (0x24 # bytes_of ''cat'')
     ([0, 1, 2, 3, 4] @ [length (0x24 # bytes_of ''cats'')])
     ([0, 1, 2, 3] @ [length (0x24 # bytes_of ''cat'')]) = 4 \<and>
   common_prefix_size (0x24 # bytes_of ''cats'') (0x24 # bytes_of ''cat'')
     ([0, 1, 2, 3, 4] @ [length (0x24 # bytes_of ''cats'')])
     ([0, 1, 2, 3] @ [length (0x24 # bytes_of ''cat'')]) = 5"
proof -
  have s: "shared_codepoints (0x24 # bytes_of ''cats'') (0x24 # bytes_of ''cat'')
     ([0, 1, 2, 3, 4] @ [length (0x24 # bytes_of ''cats'')])
     ([0, 1, 2, 3] @ [length (0x24 # bytes_of ''cat'')]) = 4"
    by code_simp
  from common_prefix_size_correct [OF cps_cats cps_cat] s cps_cats cps_cat show ?thesis
    by simp
qed

text \<open>
  Claim C4 as stated fails: \<open>$ab\<close> and \<open>$ac\<close> share two leading codepoints and the
  result is 3; \<open>a\<close> and \<open>b\<close> share none and the result is 1.
\<close>

theorem common_prefix_size_counterexample:
  "store_codepoints (0x24 # bytes_of ''ab'') = Some [0, 1, 2] \<and>
   store_codepoints (0x24 # bytes_of ''ac'') = Some [0, 1, 2] \<and>
   shared_codepoints (0x24 # bytes_of ''ab'') (0x24 # bytes_of ''ac'') [0, 1, 2, 3] [0, 1, 2, 3] = 2 \<and>
   common_prefix_size (0x24 # bytes_of ''ab'') (0x24 # bytes_of ''ac'') [0, 1, 2, 3] [0, 1, 2, 3] = 3 \<and>
   store_codepoints (bytes_of ''a'') = Some [0] \<and>
   store_codepoints (bytes_of ''b'') = Some [0] \<and>
   shared_codepoints (bytes_of ''a'') (bytes_of ''b'') [0, 1] [0, 1] = 0 \<and>
   common_prefix_size (bytes_of ''a'') (bytes_of ''b'') [0, 1] [0, 1] = 1"
  by code_simp

section \<open>Properties of the trainer\<close>

subsection \<open>The loop of update\<close>

lemma update_loop_foldl: "update_loop e m mdl i = foldl (update_body e) mdl (rev [m..i])"
proof (induction e m mdl i rule: update_loop.induct)
  case (1 e m mdl i)
  show ?case
  proof (cases "m \<le> i")
    case True
    then have "[m..i] = [m..i - 1] @ [i]"
      by (simp add: upto_rec2)
    with True "1" show ?thesis
      by (subst update_loop.simps) simp
  next
    case False
    then show ?thesis
      by (subst update_loop.simps) simp
  qed
qed

lemma update_Inr:
  assumes "\<not> is_trimmed mdl"
    and "store_codepoints (0x24 # inflected) = Some infcps"
    and "store_codepoints (0x24 # lemma) = Some lemcps"
  shows "update mdl inflected lemma c =
     Inr (foldl (update_body (update_env_of (0x24 # inflected) (0x24 # lemma)
                   (infcps @ [Suc (length inflected)]) (lemcps @ [Suc (length lemma)]) c))
            mdl (rev [max (int (max (length infcps) (length lemcps)) - int (max_suffix_size mdl)) 0 ..
                      int (max (length infcps) (length lemcps)) - 1]))"
  using assms by (simp add: update_def Let_def update_loop_foldl max_def algebra_simps)

lemma foldl_body_frame:
  "is_trimmed (foldl (update_body e) s is) = is_trimmed s \<and>
   max_suffix_size (foldl (update_body e) s is) = max_suffix_size s"
  by (induction "is" arbitrary: s) (simp_all add: update_body_tables)

lemma update_env_of_count: "update_env_of a b x y c = (update_env_of a b x y 0)\<lparr>count := c\<rparr>"
  by (simp add: update_env_of_def)

lemma lookup_entry_update:
  "lookup (entry_update k (add_counts tp fp) (0, 0) t) k' =
     (if k' = k then add_counts tp fp (lookup t k) else lookup t k')"
  by (simp add: lookup_def map_of_entry_update split: option.splits)

lemma inner_table_update_body:
  "inner_table (update_body e s i) k =
     (if k = infsuf e i
      then entry_update (lemsuf e i)
             (add_counts (if i \<le> prefixsize e - 1 then count e else 0)
                         (if i \<le> prefixsize e - 1 then 0 else count e)) (0, 0) (inner_table s k)
      else inner_table s k)"
  by (simp add: inner_table_def update_body_tables map_of_entry_update split: option.splits)

lemma env_ab_a:
  "update_env_of (0x24 # bytes_of ''ab'') (0x24 # bytes_of ''a'')
     ([0, 1, 2] @ [Suc (length (bytes_of ''ab''))]) ([0, 1] @ [Suc (length (bytes_of ''a''))]) c =
   \<lparr>inf' = 0x24 # bytes_of ''ab'', lem' = 0x24 # bytes_of ''a'', infcodepoints = [0, 1, 2, 3],
    lemcodepoints = [0, 1, 2], infsize = 4, lemsize = 3, prefixsize = 3, count = c\<rparr>"
proof -
  have cp: "common_prefix_size (0x24 # bytes_of ''ab'') (0x24 # bytes_of ''a'')
     ([0, 1, 2] @ [Suc (length (bytes_of ''ab''))]) ([0, 1] @ [Suc (length (bytes_of ''a''))]) = 3"
    by code_simp
  show ?thesis
    unfolding update_env_of_def cp by (simp add: bytes_of_def)
qed

subsection \<open>What one iteration records\<close>

lemma prefixsize_shared:
  assumes "store_codepoints (0x24 # inflected) = Some infcps"
    and "store_codepoints (0x24 # lemma) = Some lemcps"
  shows "prefixsize (update_env_of (0x24 # inflected) (0x24 # lemma)
                       (infcps @ [Suc (length inflected)]) (lemcps @ [Suc (length lemma)]) c) - 1 =
         int (shared_codepoints (0x24 # inflected) (0x24 # lemma)
                (infcps @ [Suc (length inflected)]) (lemcps @ [Suc (length lemma)]))"
  using common_prefix_size_shared [OF assms] by (simp add: update_env_of_def)

text \<open>
  Claim C2, as amended. On a store that is not trimmed and for decodable strings,
  \<open>update\<close> is its loop body run over the enumerated indices, from the highest
  down. Let \<open>prefixLen\<close> be the number of leading codepoints that the two marked
  strings share. Each iteration \<open>i\<close> adds \<open>(count, 0)\<close> to
  \<open>replacements[infsuf][lemsuf]\<close> when \<open>i \<le> prefixLen\<close> and \<open>(0, count)\<close>
  otherwise (the code tests \<open>i \<le> prefixsize - 1\<close>, and its \<open>prefixsize\<close> is
  \<open>prefixLen + 1\<close>), and leaves the other pairs of the nested table alone; whatever
  that test says, it adds \<open>(count, 0)\<close> at \<open>lemsuf\<close> and \<open>(0, count)\<close> at
  \<open>infsuf\<close> in \<open>lemcounts\<close>, and \<open>(count, 0)\<close> at \<open>infsuf\<close> and \<open>(0, count)\<close>
  at \<open>lemsuf\<close> in \<open>infcounts\<close>; all five entries exist afterwards. The count need
  not be positive for this.
\<close>

theorem update_records:
  assumes "\<not> is_trimmed mdl"
    and "store_codepoints (0x24 # inflected) = Some infcps"
    and "store_codepoints (0x24 # lemma) = Some lemcps"
    and "e = update_env_of (0x24 # inflected) (0x24 # lemma)
               (infcps @ [Suc (length inflected)]) (lemcps @ [Suc (length lemma)]) c"
    and "prefixLen = int (shared_codepoints (0x24 # inflected) (0x24 # lemma)
               (infcps @ [Suc (length inflected)]) (lemcps @ [Suc (length lemma)]))"
  shows "update mdl inflected lemma c =
      Inr (foldl (update_body e) mdl
            (rev [max (int (max (length infcps) (length lemcps)) - int (max_suffix_size mdl)) 0 ..
                  int (max (length infcps) (length lemcps)) - 1])) \<and>
    (\<forall>s i.
       lookup (inner_table (update_body e s i) (infsuf e i)) (lemsuf e i) =
         add_counts (if i \<le> prefixLen then c else 0) (if i \<le> prefixLen then 0 else c)
           (lookup (inner_table s (infsuf e i)) (lemsuf e i)) \<and>
       (\<forall>k l. (k, l) \<noteq> (infsuf e i, lemsuf e i) \<longrightarrow>
          lookup (inner_table (update_body e s i) k) l = lookup (inner_table s k) l) \<and>
       (\<forall>k. lookup (lemcounts (update_body e s i)) k =
          add_counts (if k = lemsuf e i then c else 0) (if k = infsuf e i then c else 0)
            (lookup (lemcounts s) k)) \<and>
       (\<forall>k. lookup (infcounts (update_body e s i)) k =
          add_counts (if k = infsuf e i then c else 0) (if k = lemsuf e i then c else 0)
            (lookup (infcounts s) k)) \<and>
       has_entries e (update_body e s i) i)"
proof -
  have c: "count e = c"
    using assms(4) by (simp add: update_env_of_def)
  have p: "prefixsize e - 1 = prefixLen"
    using prefixsize_shared [OF assms(2,3), of c] assms(4,5) by simp
  have "update mdl inflected lemma c =
      Inr (foldl (update_body e) mdl
            (rev [max (int (max (length infcps) (length lemcps)) - int (max_suffix_size mdl)) 0 ..
                  int (max (length infcps) (length lemcps)) - 1]))"
    using update_Inr [OF assms(1,2,3), of c] assms(4) by simp
  moreover have "lookup (lemcounts (update_body e s i)) k =
          add_counts (if k = lemsuf e i then c else 0) (if k = infsuf e i then c else 0)
            (lookup (lemcounts s) k)" for s i k
    by (simp add: update_body_tables lookup_entry_update c add_counts_def)
  moreover have "lookup (infcounts (update_body e s i)) k =
          add_counts (if k = infsuf e i then c else 0) (if k = lemsuf e i then c else 0)
            (lookup (infcounts s) k)" for s i k
    by (simp add: update_body_tables lookup_entry_update c add_counts_def)
  moreover have "lookup (inner_table (update_body e s i) (infsuf e i)) (lemsuf e i) =
         add_counts (if i \<le> prefixLen then c else 0) (if i \<le> prefixLen then 0 else c)
           (lookup (inner_table s (infsuf e i)) (lemsuf e i))" for s i
    by (simp add: inner_table_update_body lookup_entry_update c p)
  moreover have "(k, l) \<noteq> (infsuf e i, lemsuf e i) \<Longrightarrow>
          lookup (inner_table (update_body e s i) k) l = lookup (inner_table s k) l" for s i k l
    by (simp add: inner_table_update_body lookup_entry_update)
  moreover have "has_entries e (update_body e s i) i" for s i
    using has_entries_body_same [of e "count e" s i] by simp
  ultimately show ?thesis
    by blast
qed

lemma shared_ab_a:
  "int (shared_codepoints (0x24 # bytes_of ''ab'') (0x24 # bytes_of ''a'')
          ([0, 1, 2] @ [Suc (length (bytes_of ''ab''))]) ([0, 1] @ [Suc (length (bytes_of ''a''))])) = 2"
  by code_simp

text \<open>
  The theorem on training \<open>ab\<close> to \<open>a\<close> with count 5 and suffix size 1: two
  codepoints are shared, and the one iteration, at index 2, records a true positive.
\<close>

theorem update_records_witness:
  "\<not> is_trimmed (init_Model 1) \<and>
   store_codepoints (0x24 # bytes_of ''ab'') = Some [0, 1, 2] \<and>
   store_codepoints (0x24 # bytes_of ''a'') = Some [0, 1] \<and>
   update (init_Model 1) (bytes_of ''ab'') (bytes_of ''a'') 5 =
     Inr (update_body
            \<lparr>inf' = 0x24 # bytes_of ''ab'', lem' = 0x24 # bytes_of ''a'', infcodepoints = [0, 1, 2, 3],
             lemcodepoints = [0, 1, 2], infsize = 4, lemsize = 3, prefixsize = 3, count = 5\<rparr>
            (init_Model 1) 2) \<and>
   lookup (inner_table
     (update_body
            \<lparr>inf' = 0x24 # bytes_of ''ab'', lem' = 0x24 # bytes_of ''a'', infcodepoints = [0, 1, 2, 3],
             lemcodepoints = [0, 1, 2], infsize = 4, lemsize = 3, prefixsize = 3, count = 5\<rparr>
            (init_Model 1) 2) (bytes_of ''b'')) [] = (5, 0) \<and>
   lookup (lemcounts
     (update_body
            \<lparr>inf' = 0x24 # bytes_of ''ab'', lem' = 0x24 # bytes_of ''a'', infcodepoints = [0, 1, 2, 3],
             lemcodepoints = [0, 1, 2], infsize = 4, lemsize = 3, prefixsize = 3, count = 5\<rparr>
            (init_Model 1) 2)) [] = (5, 0) \<and>
   lookup (infcounts
     (update_body
            \<lparr>inf' = 0x24 # bytes_of ''ab'', lem' = 0x24 # bytes_of ''a'', infcodepoints = [0, 1, 2, 3],
             lemcodepoints = [0, 1, 2], infsize = 4, lemsize = 3, prefixsize = 3, count = 5\<rparr>
            (init_Model 1) 2)) [] = (0, 5)"
proof -
  have nt: "\<not> is_trimmed (init_Model 1)"
    by (simp add: init_Model_def)
  have idx: "rev [max (int (max (length [0::nat, 1, 2]) (length [0::nat, 1])) - int (max_suffix_size (init_Model 1))) 0 ..
                  int (max (length [0::nat, 1, 2]) (length [0::nat, 1])) - 1] = [2]"
    by (simp add: init_Model_def upto.simps)
  have sufs: "infsuf \<lparr>inf' = 0x24 # bytes_of ''ab'', lem' = 0x24 # bytes_of ''a'', infcodepoints = [0, 1, 2, 3],
             lemcodepoints = [0, 1, 2], infsize = 4, lemsize = 3, prefixsize = 3, count = 5\<rparr> 2 = bytes_of ''b''"
     "lemsuf \<lparr>inf' = 0x24 # bytes_of ''ab'', lem' = 0x24 # bytes_of ''a'', infcodepoints = [0, 1, 2, 3],
             lemcodepoints = [0, 1, 2], infsize = 4, lemsize = 3, prefixsize = 3, count = 5\<rparr> 2 = []"
    by (simp_all add: infsuf_def lemsuf_def bytes_of_def)
  note T = update_records [OF nt cps_ab cps_a env_ab_a [of 5, symmetric] shared_ab_a [symmetric]]
  note B = T [THEN conjunct2, rule_format, of "init_Model 1" 2, unfolded sufs]
  have u: "update (init_Model 1) (bytes_of ''ab'') (bytes_of ''a'') 5 =
     Inr (update_body
            \<lparr>inf' = 0x24 # bytes_of ''ab'', lem' = 0x24 # bytes_of ''a'', infcodepoints = [0, 1, 2, 3],
             lemcodepoints = [0, 1, 2], infsize = 4, lemsize = 3, prefixsize = 3, count = 5\<rparr>
            (init_Model 1) 2)"
    using T [THEN conjunct1] unfolding idx by simp
  have z: "inner_table (init_Model n) k = []" "lookup (lemcounts (init_Model n)) k = (0, 0)"
    "lookup (infcounts (init_Model n)) k = (0, 0)" "lookup [] k = (0, 0)" for k n
    by (simp_all add: init_Model_def inner_table_def lookup_def)
  have r: "lookup (inner_table
     (update_body
            \<lparr>inf' = 0x24 # bytes_of ''ab'', lem' = 0x24 # bytes_of ''a'', infcodepoints = [0, 1, 2, 3],
             lemcodepoints = [0, 1, 2], infsize = 4, lemsize = 3, prefixsize = 3, count = 5\<rparr>
            (init_Model 1) 2) (bytes_of ''b'')) [] = (5, 0)"
    using B [THEN conjunct1] by (simp add: z add_counts_def)
  have l: "lookup (lemcounts
     (update_body
            \<lparr>inf' = 0x24 # bytes_of ''ab'', lem' = 0x24 # bytes_of ''a'', infcodepoints = [0, 1, 2, 3],
             lemcodepoints = [0, 1, 2], infsize = 4, lemsize = 3, prefixsize = 3, count = 5\<rparr>
            (init_Model 1) 2)) [] = (5, 0)"
    using B [THEN conjunct2, THEN conjunct2, THEN conjunct1, rule_format, of "[]"]
    by (simp add: z add_counts_def bytes_of_def)
  have i: "lookup (infcounts
     (update_body
            \<lparr>inf' = 0x24 # bytes_of ''ab'', lem' = 0x24 # bytes_of ''a'', infcodepoints = [0, 1, 2, 3],
             lemcodepoints = [0, 1, 2], infsize = 4, lemsize = 3, prefixsize = 3, count = 5\<rparr>
            (init_Model 1) 2)) [] = (0, 5)"
    using B [THEN conjunct2, THEN conjunct2, THEN conjunct2, THEN conjunct1, rule_format, of "[]"]
    by (simp add: z add_counts_def bytes_of_def)
  from nt cps_ab cps_a u r l i show ?thesis
    by blast
qed

text \<open>
  Claim C2 as stated fails: \<open>$cats\<close> and \<open>$cat\<close> share four leading codepoints,
  so at \<open>i = 4\<close> the test \<open>i \<le> prefixLen - 1\<close> of the claim is false and the
  claim has \<open>(0, count)\<close> added to \<open>replacements[s][empty]\<close>; the code adds
  \<open>(count, 0)\<close>.
\<close>

theorem update_records_counterexample:
  "store_codepoints (0x24 # bytes_of ''cats'') = Some [0, 1, 2, 3, 4] \<and>
   store_codepoints (0x24 # bytes_of ''cat'') = Some [0, 1, 2, 3] \<and>
   shared_codepoints (0x24 # bytes_of ''cats'') (0x24 # bytes_of ''cat'')
     [0, 1, 2, 3, 4, 5] [0, 1, 2, 3, 4] = 4 \<and>
   \<not> (4::int) \<le> 4 - 1 \<and>
   infsuf (update_env_of (0x24 # bytes_of ''cats'') (0x24 # bytes_of ''cat'')
             [0, 1, 2, 3, 4, 5] [0, 1, 2, 3, 4] 5) 4 = bytes_of ''s'' \<and>
   lemsuf (update_env_of (0x24 # bytes_of ''cats'') (0x24 # bytes_of ''cat'')
             [0, 1, 2, 3, 4, 5] [0, 1, 2, 3, 4] 5) 4 = [] \<and>
   lookup (inner_table
     (update_body (update_env_of (0x24 # bytes_of ''cats'') (0x24 # bytes_of ''cat'')
                     [0, 1, 2, 3, 4, 5] [0, 1, 2, 3, 4] 5) (init_Model 4) 4)
     (bytes_of ''s'')) [] = (5, 0) \<and>
   update (init_Model 4) (bytes_of ''cats'') (bytes_of ''cat'') 5 =
     Inr (foldl (update_body (update_env_of (0x24 # bytes_of ''cats'') (0x24 # bytes_of ''cat'')
                   [0, 1, 2, 3, 4, 5] [0, 1, 2, 3, 4] 5))
            (init_Model 4) [4, 3, 2, 1]) \<and>
   lookup (inner_table (projr (update (init_Model 4) (bytes_of ''cats'') (bytes_of ''cat'') 5))
     (bytes_of ''s'')) [] = (5, 0)"
  by code_simp

subsection \<open>Additivity\<close>

text \<open>
  Claim C8. On a store that is not trimmed and for decodable strings, training a pair
  with count \<open>c1\<close> and then with count \<open>c2\<close> succeeds and ends in the very store
  (tables, in their order, and both scalar fields) that one training with count
  \<open>c1 + c2\<close> ends in. The counts need not be positive for this.
\<close>

theorem update_additive:
  assumes "\<not> is_trimmed mdl"
    and "store_codepoints (0x24 # inflected) \<noteq> None"
    and "store_codepoints (0x24 # lemma) \<noteq> None"
  shows "\<exists>m1 m2. update mdl inflected lemma c1 = Inr m1 \<and>
                 update m1 inflected lemma c2 = Inr m2 \<and>
                 update mdl inflected lemma (c1 + c2) = Inr m2"
proof -
  from assms obtain infcps lemcps where
    cps: "store_codepoints (0x24 # inflected) = Some infcps"
         "store_codepoints (0x24 # lemma) = Some lemcps"
    by auto
  let ?e = "update_env_of (0x24 # inflected) (0x24 # lemma)
              (infcps @ [Suc (length inflected)]) (lemcps @ [Suc (length lemma)]) 0"
  let ?is = "rev [max (int (max (length infcps) (length lemcps)) - int (max_suffix_size mdl)) 0 ..
                   int (max (length infcps) (length lemcps)) - 1]"
  let ?m1 = "foldl (update_body (?e\<lparr>count := c1\<rparr>)) mdl ?is"
  have 1: "update mdl inflected lemma c = Inr (foldl (update_body (?e\<lparr>count := c\<rparr>)) mdl ?is)" for c
    using update_Inr [OF assms(1) cps, of c] by (simp add: update_env_of_count [symmetric])
  have "\<not> is_trimmed ?m1" "max_suffix_size ?m1 = max_suffix_size mdl"
    using assms(1) by (simp_all add: foldl_body_frame)
  then have 2: "update ?m1 inflected lemma c2 = Inr (foldl (update_body (?e\<lparr>count := c2\<rparr>)) ?m1 ?is)"
    using update_Inr [OF _ cps, of ?m1 c2] by (simp add: update_env_of_count [symmetric])
  show ?thesis
    using 1 [of c1] 1 [of "c1 + c2"] 2 by (simp add: foldl_body_add)
qed

text \<open>The theorem on training \<open>ab\<close> to \<open>a\<close> with counts 1 and 2, suffix size 1.\<close>

theorem update_additive_witness:
  "\<not> is_trimmed (init_Model 1) \<and>
   store_codepoints (0x24 # bytes_of ''ab'') \<noteq> None \<and>
   store_codepoints (0x24 # bytes_of ''a'') \<noteq> None \<and>
   update (init_Model 1) (bytes_of ''ab'') (bytes_of ''a'') 1 =
     Inr \<lparr>replacements = [(bytes_of ''b'', [([], (1, 0))])],
          lemcounts = [([], (1, 0)), (bytes_of ''b'', (0, 1))],
          infcounts = [(bytes_of ''b'', (1, 0)), ([], (0, 1))],
          max_suffix_size = 1, is_trimmed = False\<rparr> \<and>
   update \<lparr>replacements = [(bytes_of ''b'', [([], (1, 0))])],
           lemcounts = [([], (1, 0)), (bytes_of ''b'', (0, 1))],
           infcounts = [(bytes_of ''b'', (1, 0)), ([], (0, 1))],
           max_suffix_size = 1, is_trimmed = False\<rparr> (bytes_of ''ab'') (bytes_of ''a'') 2 =
     update (init_Model 1) (bytes_of ''ab'') (bytes_of ''a'') (1 + 2)"
proof -
  have nt: "\<not> is_trimmed (init_Model 1)"
    by (simp add: init_Model_def)
  have d: "store_codepoints (0x24 # bytes_of ''ab'') \<noteq> None"
    "store_codepoints (0x24 # bytes_of ''a'') \<noteq> None"
    by (simp_all add: cps_ab cps_a)
  have u: "update (init_Model 1) (bytes_of ''ab'') (bytes_of ''a'') 1 =
     Inr \<lparr>replacements = [(bytes_of ''b'', [([], (1, 0))])],
          lemcounts = [([], (1, 0)), (bytes_of ''b'', (0, 1))],
          infcounts = [(bytes_of ''b'', (1, 0)), ([], (0, 1))],
          max_suffix_size = 1, is_trimmed = False\<rparr>"
    by code_simp
  from update_additive [OF nt d, of 1 2] u nt d show ?thesis
    by auto
qed

subsection \<open>The enumerated indices\<close>

text \<open>
  Claim C5, as amended. With \<open>n\<close> one more than the larger of the two codepoint
  counts of the marked strings (the sentinel counted), \<open>update\<close> runs its loop body
  for \<open>i\<close> from \<open>n - 2\<close> down to \<open>m = max (n - max_suffix_size - 1) 0\<close>, both
  included, so for \<open>max_suffix_size\<close> indices when there are that many; the suffix of
  each string starts at the entry \<open>min (size - 1) i\<close> of its index list, where
  \<open>size\<close> counts the sentinel, so the index stops at the sentinel.
\<close>

theorem update_enumeration:
  assumes "\<not> is_trimmed mdl"
    and "store_codepoints (0x24 # inflected) = Some infcps"
    and "store_codepoints (0x24 # lemma) = Some lemcps"
    and "a = 0x24 # inflected" and "b = 0x24 # lemma"
    and "n = int (max (length infcps) (length lemcps)) + 1"
    and "m = max (n - int (max_suffix_size mdl) - 1) 0"
    and "e = update_env_of a b (infcps @ [length a]) (lemcps @ [length b]) c"
  shows "update mdl inflected lemma c = Inr (foldl (update_body e) mdl (rev [m..n - 2])) \<and>
         (\<forall>i. infsuf e i = drop ((infcps @ [length a]) ! nat (min (int (length infcps)) i)) a \<and>
              lemsuf e i = drop ((lemcps @ [length b]) ! nat (min (int (length lemcps)) i)) b)"
  using assms(4-8) update_Inr [OF assms(1-3), of c]
  by (simp add: infsuf_def lemsuf_def update_env_of_def)

text \<open>
  The theorem on training \<open>cats\<close> to \<open>cat\<close> with suffix size 4: the indices are
  4, 3, 2 and 1.
\<close>

theorem update_enumeration_witness:
  "\<not> is_trimmed (init_Model 4) \<and>
   store_codepoints (0x24 # bytes_of ''cats'') = Some [0, 1, 2, 3, 4] \<and>
   store_codepoints (0x24 # bytes_of ''cat'') = Some [0, 1, 2, 3] \<and>
   update (init_Model 4) (bytes_of ''cats'') (bytes_of ''cat'') 5 =
     Inr (foldl (update_body (update_env_of (0x24 # bytes_of ''cats'') (0x24 # bytes_of ''cat'')
                   ([0, 1, 2, 3, 4] @ [length (0x24 # bytes_of ''cats'')])
                   ([0, 1, 2, 3] @ [length (0x24 # bytes_of ''cat'')]) 5))
            (init_Model 4) [4, 3, 2, 1])"
proof -
  have nt: "\<not> is_trimmed (init_Model 4)"
    by (simp add: init_Model_def)
  have idx: "rev [max (int (max (length [0::nat, 1, 2, 3, 4]) (length [0::nat, 1, 2, 3])) + 1 -
                   int (max_suffix_size (init_Model 4)) - 1) 0 ..
                 int (max (length [0::nat, 1, 2, 3, 4]) (length [0::nat, 1, 2, 3])) + 1 - 2] = [4, 3, 2, 1]"
    by (simp add: init_Model_def upto.simps)
  from update_enumeration [OF nt cps_cats cps_cat refl refl refl refl refl, of 5, THEN conjunct1]
  have "update (init_Model 4) (bytes_of ''cats'') (bytes_of ''cat'') 5 =
     Inr (foldl (update_body (update_env_of (0x24 # bytes_of ''cats'') (0x24 # bytes_of ''cat'')
                   ([0, 1, 2, 3, 4] @ [length (0x24 # bytes_of ''cats'')])
                   ([0, 1, 2, 3] @ [length (0x24 # bytes_of ''cat'')]) 5))
            (init_Model 4) [4, 3, 2, 1])"
    unfolding idx .
  with nt cps_cats cps_cat show ?thesis
    by blast
qed

text \<open>
  Claim C5 as stated fails: for \<open>cats\<close> and \<open>cat\<close> with suffix size 4, \<open>n\<close> is
  6 and \<open>max (n - max_suffix_size - 2) 0\<close> is 0, but the store that \<open>update\<close>
  returns is not the one that the loop body leaves after the indices 4 down to 0.
\<close>

theorem update_enumeration_counterexample:
  "store_codepoints (0x24 # bytes_of ''cats'') = Some [0, 1, 2, 3, 4] \<and>
   store_codepoints (0x24 # bytes_of ''cat'') = Some [0, 1, 2, 3] \<and>
   max (int (max (length [0::nat, 1, 2, 3, 4]) (length [0::nat, 1, 2, 3])) + 1 -
          int (max_suffix_size (init_Model 4)) - 2) 0 = 0 \<and>
   update (init_Model 4) (bytes_of ''cats'') (bytes_of ''cat'') 5 \<noteq>
     Inr (foldl (update_body (update_env_of (0x24 # bytes_of ''cats'') (0x24 # bytes_of ''cat'')
                   [0, 1, 2, 3, 4, 5] [0, 1, 2, 3, 4] 5))
            (init_Model 4) (rev [0..4]))"
  by code_simp

subsection \<open>The empty suffix\<close>

lemma upto_ab_cases:
  assumes "1 \<le> ms"
  shows "rev [max (3 - int ms) 0 .. 2] \<in> {[2], [2, 1], [2, 1, 0]}"
proof -
  from assms consider "ms = 1" | "ms = 2" | "3 \<le> ms"
    by linarith
  then show ?thesis
  proof cases
    case 1
    then show ?thesis by (simp add: upto.simps)
  next
    case 2
    then show ?thesis by (simp add: upto.simps)
  next
    case 3
    then show ?thesis by (simp add: upto.simps max_def)
  qed
qed

lemma env_a_ab:
  "update_env_of (0x24 # bytes_of ''a'') (0x24 # bytes_of ''ab'')
     ([0, 1] @ [Suc (length (bytes_of ''a''))]) ([0, 1, 2] @ [Suc (length (bytes_of ''ab''))]) c =
   \<lparr>inf' = 0x24 # bytes_of ''a'', lem' = 0x24 # bytes_of ''ab'', infcodepoints = [0, 1, 2],
    lemcodepoints = [0, 1, 2, 3], infsize = 3, lemsize = 4, prefixsize = 3, count = c\<rparr>"
proof -
  have cp: "common_prefix_size (0x24 # bytes_of ''a'') (0x24 # bytes_of ''ab'')
     ([0, 1] @ [Suc (length (bytes_of ''a''))]) ([0, 1, 2] @ [Suc (length (bytes_of ''ab''))]) = 3"
    by code_simp
  show ?thesis
    unfolding update_env_of_def cp by (simp add: bytes_of_def)
qed

lemma train_ab_a:
  assumes "1 \<le> ms"
  shows "\<exists>r. update (init_Model ms) (bytes_of ''ab'') (bytes_of ''a'') c = Inr r \<and>
     map_of (lemcounts r) [] = Some (c, 0) \<and> map_of (infcounts r) [] = Some (0, c) \<and>
     (c \<noteq> 0 \<longrightarrow> map_of (lemcounts (Model_trim r)) [] = Some (c, 0) \<and>
                map_of (infcounts (Model_trim r)) [] = None)"
proof -
  have nt: "\<not> is_trimmed (init_Model ms)"
    by (simp add: init_Model_def)
  have u: "update (init_Model ms) (bytes_of ''ab'') (bytes_of ''a'') c =
      Inr (foldl (update_body
                   \<lparr>inf' = 0x24 # bytes_of ''ab'', lem' = 0x24 # bytes_of ''a'',
                    infcodepoints = [0, 1, 2, 3], lemcodepoints = [0, 1, 2],
                    infsize = 4, lemsize = 3, prefixsize = 3, count = c\<rparr>)
            (init_Model ms) (rev [max (3 - int ms) 0 .. 2]))"
    unfolding update_Inr [OF nt cps_ab cps_a] env_ab_a by (simp add: init_Model_def)
  from upto_ab_cases [OF assms] show ?thesis
    unfolding u
    by (auto simp: update_body_tables infsuf_def lemsuf_def bytes_of_def init_Model_def
        Model_trim_def add_counts_def)
qed

lemma train_a_ab:
  assumes "1 \<le> ms"
  shows "\<exists>r. update (init_Model ms) (bytes_of ''a'') (bytes_of ''ab'') c = Inr r \<and>
     map_of (infcounts r) [] = Some (c, 0) \<and> map_of (lemcounts r) [] = Some (0, c) \<and>
     (c \<noteq> 0 \<longrightarrow> map_of (infcounts (Model_trim r)) [] = Some (c, 0) \<and>
                map_of (lemcounts (Model_trim r)) [] = None)"
proof -
  have nt: "\<not> is_trimmed (init_Model ms)"
    by (simp add: init_Model_def)
  have u: "update (init_Model ms) (bytes_of ''a'') (bytes_of ''ab'') c =
      Inr (foldl (update_body
                   \<lparr>inf' = 0x24 # bytes_of ''a'', lem' = 0x24 # bytes_of ''ab'',
                    infcodepoints = [0, 1, 2], lemcodepoints = [0, 1, 2, 3],
                    infsize = 3, lemsize = 4, prefixsize = 3, count = c\<rparr>)
            (init_Model ms) (rev [max (3 - int ms) 0 .. 2]))"
    unfolding update_Inr [OF nt cps_a cps_ab] env_a_ab by (simp add: init_Model_def max_def)
  from upto_ab_cases [OF assms] show ?thesis
    unfolding u
    by (auto simp: update_body_tables infsuf_def lemsuf_def bytes_of_def init_Model_def
        Model_trim_def add_counts_def)
qed

text \<open>
  Claim C10. Training \<open>ab\<close> to \<open>a\<close> with a positive count on a fresh store, whatever
  its suffix size, puts the empty string into both flat tables: the index of the
  shorter string stops at its sentinel, where the suffix is empty. In \<open>lemcounts\<close>
  the empty key has the true-positive count \<open>count > 0\<close> and is still there after
  \<open>Model_trim\<close>; in \<open>infcounts\<close> its true-positive count is zero and trimming
  removes it. Training \<open>a\<close> to \<open>ab\<close> does the same with the two tables exchanged.
\<close>

theorem empty_suffix_recorded:
  assumes "0 < c" and "1 \<le> ms"
  shows "(\<exists>r. update (init_Model ms) (bytes_of ''ab'') (bytes_of ''a'') c = Inr r \<and>
            map_of (lemcounts r) [] = Some (c, 0) \<and> map_of (infcounts r) [] = Some (0, c) \<and>
            map_of (lemcounts (Model_trim r)) [] = Some (c, 0) \<and>
            map_of (infcounts (Model_trim r)) [] = None) \<and>
         (\<exists>r. update (init_Model ms) (bytes_of ''a'') (bytes_of ''ab'') c = Inr r \<and>
            map_of (infcounts r) [] = Some (c, 0) \<and> map_of (lemcounts r) [] = Some (0, c) \<and>
            map_of (infcounts (Model_trim r)) [] = Some (c, 0) \<and>
            map_of (lemcounts (Model_trim r)) [] = None)"
  using train_ab_a [OF assms(2), of c] train_a_ab [OF assms(2), of c] assms(1)
  by auto

text \<open>The theorem on count 5 and suffix size 8.\<close>

theorem empty_suffix_recorded_witness:
  "(0::int) < 5 \<and> (1::nat) \<le> 8 \<and>
   map_of (lemcounts (projr (update (init_Model 8) (bytes_of ''ab'') (bytes_of ''a'') 5))) [] =
     Some (5, 0) \<and>
   map_of (lemcounts (Model_trim (projr (update (init_Model 8) (bytes_of ''ab'') (bytes_of ''a'') 5)))) [] =
     Some (5, 0) \<and>
   map_of (infcounts (projr (update (init_Model 8) (bytes_of ''a'') (bytes_of ''ab'') 5))) [] =
     Some (5, 0) \<and>
   map_of (infcounts (Model_trim (projr (update (init_Model 8) (bytes_of ''a'') (bytes_of ''ab'') 5)))) [] =
     Some (5, 0)"
  using empty_suffix_recorded [of 5 8]
  by auto

section \<open>Properties of the stores that training builds\<close>

subsection \<open>What update keeps\<close>

lemma list_all_entry_update:
  assumes "list_all (\<lambda>(k, v). P k v) xs" and "P k (f d)" and "\<And>v. P k v \<Longrightarrow> P k (f v)"
  shows "list_all (\<lambda>(k, v). P k v) (entry_update k f d xs)"
  using assms by (induction xs) auto

lemma update_Inr_cases:
  assumes "update mdl inflected lemma c = Inr mdl'"
  obtains infcps lemcps where "\<not> is_trimmed mdl"
    and "store_codepoints (0x24 # inflected) = Some infcps"
    and "store_codepoints (0x24 # lemma) = Some lemcps"
  using assms by (auto simp: update_def Let_def split: if_splits option.splits)

lemma foldl_body_invariant:
  assumes "P s" and "\<And>s i. P s \<Longrightarrow> P (update_body e s i)"
  shows "P (foldl (update_body e) s is)"
  using assms by (induction "is" arbitrary: s) auto

subsection \<open>The marker stays in front\<close>






subsection \<open>Counts stay in range\<close>

lemma all_counts_nonneg_iff:
  "list_all (\<lambda>p. 0 \<le> fst p \<and> 0 \<le> snd p) (all_counts s) \<longleftrightarrow>
     list_all (\<lambda>(k, p). 0 \<le> fst p \<and> 0 \<le> snd p) (lemcounts s) \<and>
     list_all (\<lambda>(k, p). 0 \<le> fst p \<and> 0 \<le> snd p) (infcounts s) \<and>
     list_all (\<lambda>(k, t). list_all (\<lambda>(l, p). 0 \<le> fst p \<and> 0 \<le> snd p) t) (replacements s)"
  by (auto simp: all_counts_def list_all_iff) force+

lemma nonneg_count_update:
  assumes "list_all (\<lambda>(k, p). 0 \<le> fst p \<and> 0 \<le> snd p) t" and "0 \<le> tp" and "0 \<le> fp"
  shows "list_all (\<lambda>(k, p). 0 \<le> fst p \<and> 0 \<le> snd p) (entry_update k (add_counts tp fp) (0, 0) t)"
  using assms by (intro list_all_entry_update) (auto simp: add_counts_def)

lemma nonneg_update_body:
  assumes "list_all (\<lambda>p. 0 \<le> fst p \<and> 0 \<le> snd p) (all_counts s)" and "0 \<le> count e"
  shows "list_all (\<lambda>p. 0 \<le> fst p \<and> 0 \<le> snd p) (all_counts (update_body e s i))"
proof -
  have "list_all (\<lambda>(k, t). list_all (\<lambda>(l, p). 0 \<le> fst p \<and> 0 \<le> snd p) t)
          (entry_update (infsuf e i) (entry_update (lemsuf e i) (add_counts tp fp) (0, 0)) []
             (replacements s))"
    if "0 \<le> tp" "0 \<le> fp" for tp fp
    using assms(1) that
    by (intro list_all_entry_update nonneg_count_update) (auto simp: all_counts_nonneg_iff)
  with assms show ?thesis
    unfolding all_counts_nonneg_iff update_body_tables
    by (auto intro!: nonneg_count_update)
qed

lemma store_invariant_trim: "store_invariant s \<Longrightarrow> store_invariant (Model_trim s)"
proof (cases "is_trimmed s")
  case True
  assume "store_invariant s"
  with True show ?thesis
    by (simp add: Model_trim_def)
next
  case False
  assume inv: "store_invariant s"
  from set_all_counts_trim [OF False] inv
  have "list_all (\<lambda>p. 0 \<le> fst p \<and> 0 \<le> snd p) (all_counts (Model_trim s))"
    "list_all (\<lambda>p. fst p \<noteq> 0) (all_counts (Model_trim s))"
    by (auto simp: store_invariant_def list_all_iff)
  then show ?thesis
    by (simp add: store_invariant_def)
qed

lemma trained_store_invariant: "trained mdl \<Longrightarrow> store_invariant mdl"
proof (induction rule: trained.induct)
  case (trained_new sz mdl)
  then show ?case
    by (auto simp: new_Model_def init_Model_def store_invariant_def all_counts_def split: if_splits)
next
  case (trained_update mdl inflected lem c mdl')
  from trained_update.hyps(5) obtain infcps lemcps where
    u: "\<not> is_trimmed mdl" "store_codepoints (0x24 # inflected) = Some infcps"
       "store_codepoints (0x24 # lem) = Some lemcps"
    by (rule update_Inr_cases)
  let ?e = "update_env_of (0x24 # inflected) (0x24 # lem)
              (infcps @ [Suc (length inflected)]) (lemcps @ [Suc (length lem)]) c"
  have c: "0 \<le> count ?e"
    using trained_update.hyps(4) by (simp add: update_env_of_def)
  from trained_update.IH have "list_all (\<lambda>p. 0 \<le> fst p \<and> 0 \<le> snd p) (all_counts mdl)"
    by (simp add: store_invariant_def)
  then have "list_all (\<lambda>p. 0 \<le> fst p \<and> 0 \<le> snd p) (all_counts (foldl (update_body ?e) mdl xs))"
    for xs
    by (rule foldl_body_invariant
          [where P = "\<lambda>s. list_all (\<lambda>p. 0 \<le> fst p \<and> 0 \<le> snd p) (all_counts s)"])
      (rule nonneg_update_body [OF _ c])
  moreover have "\<not> is_trimmed (foldl (update_body ?e) mdl xs)" for xs
    using u(1) by (simp add: foldl_body_frame)
  ultimately show ?case
    using update_Inr [OF u, of c] trained_update.hyps(5) by (simp add: store_invariant_def)
next
  case (trained_trim mdl)
  from trained_trim.IH show ?case
    by (rule store_invariant_trim)
qed

subsection \<open>Trimmed stores\<close>

text \<open>
  Claim C6, as amended. On a store that is not yet trimmed, \<open>Model_trim\<close> keeps in
  each table exactly the entries whose true-positive count is not zero, unchanged and
  in their order, and drops an outer key of the nested table whose inner table is
  left empty. It sets \<open>is_trimmed\<close>. On a trimmed store it changes nothing, so it
  is idempotent. Hence every entry left has a positive true-positive count when
  training built the store (construction, \<open>update\<close> with positive counts,
  \<open>Model_trim\<close>). This does not extend to a store that \<open>load\<close> rebuilt from
  a file, which is taken as it is.
\<close>

theorem Model_trim_correct:
  "(\<not> is_trimmed mdl \<longrightarrow>
      lemcounts (Model_trim mdl) = filter (\<lambda>(k, p). fst p \<noteq> 0) (lemcounts mdl) \<and>
      infcounts (Model_trim mdl) = filter (\<lambda>(k, p). fst p \<noteq> 0) (infcounts mdl) \<and>
      replacements (Model_trim mdl) =
        filter (\<lambda>(k, t). t \<noteq> [])
          (map (\<lambda>(k, t). (k, filter (\<lambda>(l, p). fst p \<noteq> 0) t)) (replacements mdl))) \<and>
   is_trimmed (Model_trim mdl) \<and>
   max_suffix_size (Model_trim mdl) = max_suffix_size mdl \<and>
   (is_trimmed mdl \<longrightarrow> Model_trim mdl = mdl) \<and>
   Model_trim (Model_trim mdl) = Model_trim mdl \<and>
   (trained mdl \<longrightarrow> list_all (\<lambda>p. 0 < fst p) (all_counts (Model_trim mdl)))"
proof -
  have "list_all (\<lambda>p. 0 < fst p) (all_counts (Model_trim mdl))" if "trained mdl"
  proof -
    from that have "store_invariant mdl"
      by (rule trained_store_invariant)
    then show ?thesis
      by (cases "is_trimmed mdl")
        (auto simp: all_counts_trimmed_pos all_counts_trim_pos store_invariant_def)
  qed
  then show ?thesis
    by (simp add: Model_trim_def trim_counts_filter trim_replacements_filter)
qed

lemma trained_example:
  "trained
     \<lparr>replacements = [(bytes_of ''b'', [([], (1, 0))]), (bytes_of ''d'', [(bytes_of ''d'', (0, 1))])],
      lemcounts = [([], (1, 0)), (bytes_of ''b'', (0, 1)), (bytes_of ''d'', (1, 1))],
      infcounts = [(bytes_of ''b'', (1, 0)), ([], (0, 1)), (bytes_of ''d'', (1, 1))],
      max_suffix_size = 1, is_trimmed = False\<rparr>"
proof -
  have "new_Model 1 = Inr (init_Model 1)"
    by (simp add: new_Model_def)
  then have t0: "trained (init_Model 1)"
    by (rule trained_new)
  have u1: "update (init_Model 1) (bytes_of ''ab'') (bytes_of ''a'') 1 =
     Inr \<lparr>replacements = [(bytes_of ''b'', [([], (1, 0))])],
          lemcounts = [([], (1, 0)), (bytes_of ''b'', (0, 1))],
          infcounts = [(bytes_of ''b'', (1, 0)), ([], (0, 1))],
          max_suffix_size = 1, is_trimmed = False\<rparr>"
    by code_simp
  have m1: "0x24 \<notin> set (bytes_of ''ab'')" "0x24 \<notin> set (bytes_of ''a'')"
    by (simp_all add: bytes_of_def)
  have t1: "trained
     \<lparr>replacements = [(bytes_of ''b'', [([], (1, 0))])],
      lemcounts = [([], (1, 0)), (bytes_of ''b'', (0, 1))],
      infcounts = [(bytes_of ''b'', (1, 0)), ([], (0, 1))],
      max_suffix_size = 1, is_trimmed = False\<rparr>"
    by (rule trained_update [OF t0 m1 _ u1]) simp
  have u2: "update
     \<lparr>replacements = [(bytes_of ''b'', [([], (1, 0))])],
      lemcounts = [([], (1, 0)), (bytes_of ''b'', (0, 1))],
      infcounts = [(bytes_of ''b'', (1, 0)), ([], (0, 1))],
      max_suffix_size = 1, is_trimmed = False\<rparr> (bytes_of ''xd'') (bytes_of ''yd'') 1 =
     Inr \<lparr>replacements = [(bytes_of ''b'', [([], (1, 0))]), (bytes_of ''d'', [(bytes_of ''d'', (0, 1))])],
          lemcounts = [([], (1, 0)), (bytes_of ''b'', (0, 1)), (bytes_of ''d'', (1, 1))],
          infcounts = [(bytes_of ''b'', (1, 0)), ([], (0, 1)), (bytes_of ''d'', (1, 1))],
          max_suffix_size = 1, is_trimmed = False\<rparr>"
    by code_simp
  have m2: "0x24 \<notin> set (bytes_of ''xd'')" "0x24 \<notin> set (bytes_of ''yd'')"
    by (simp_all add: bytes_of_def)
  show ?thesis
    by (rule trained_update [OF t1 m2 _ u2]) simp
qed

text \<open>
  The theorem on the store that training \<open>ab\<close> to \<open>a\<close> and \<open>xd\<close> to \<open>yd\<close>
  leaves (suffix size 1), and on the trimmed store that results.
\<close>

theorem Model_trim_correct_witness:
  "\<not> is_trimmed
      \<lparr>replacements = [(bytes_of ''b'', [([], (1, 0))]), (bytes_of ''d'', [(bytes_of ''d'', (0, 1))])],
       lemcounts = [([], (1, 0)), (bytes_of ''b'', (0, 1)), (bytes_of ''d'', (1, 1))],
       infcounts = [(bytes_of ''b'', (1, 0)), ([], (0, 1)), (bytes_of ''d'', (1, 1))],
       max_suffix_size = 1, is_trimmed = False\<rparr> \<and>
   trained
      \<lparr>replacements = [(bytes_of ''b'', [([], (1, 0))]), (bytes_of ''d'', [(bytes_of ''d'', (0, 1))])],
       lemcounts = [([], (1, 0)), (bytes_of ''b'', (0, 1)), (bytes_of ''d'', (1, 1))],
       infcounts = [(bytes_of ''b'', (1, 0)), ([], (0, 1)), (bytes_of ''d'', (1, 1))],
       max_suffix_size = 1, is_trimmed = False\<rparr> \<and>
   Model_trim
      \<lparr>replacements = [(bytes_of ''b'', [([], (1, 0))]), (bytes_of ''d'', [(bytes_of ''d'', (0, 1))])],
       lemcounts = [([], (1, 0)), (bytes_of ''b'', (0, 1)), (bytes_of ''d'', (1, 1))],
       infcounts = [(bytes_of ''b'', (1, 0)), ([], (0, 1)), (bytes_of ''d'', (1, 1))],
       max_suffix_size = 1, is_trimmed = False\<rparr> =
      \<lparr>replacements = [(bytes_of ''b'', [([], (1, 0))])],
       lemcounts = [([], (1, 0)), (bytes_of ''d'', (1, 1))],
       infcounts = [(bytes_of ''b'', (1, 0)), (bytes_of ''d'', (1, 1))],
       max_suffix_size = 1, is_trimmed = True\<rparr> \<and>
   is_trimmed
      \<lparr>replacements = [(bytes_of ''b'', [([], (1, 0))])],
       lemcounts = [([], (1, 0)), (bytes_of ''d'', (1, 1))],
       infcounts = [(bytes_of ''b'', (1, 0)), (bytes_of ''d'', (1, 1))],
       max_suffix_size = 1, is_trimmed = True\<rparr> \<and>
   Model_trim
      \<lparr>replacements = [(bytes_of ''b'', [([], (1, 0))])],
       lemcounts = [([], (1, 0)), (bytes_of ''d'', (1, 1))],
       infcounts = [(bytes_of ''b'', (1, 0)), (bytes_of ''d'', (1, 1))],
       max_suffix_size = 1, is_trimmed = True\<rparr> =
      \<lparr>replacements = [(bytes_of ''b'', [([], (1, 0))])],
       lemcounts = [([], (1, 0)), (bytes_of ''d'', (1, 1))],
       infcounts = [(bytes_of ''b'', (1, 0)), (bytes_of ''d'', (1, 1))],
       max_suffix_size = 1, is_trimmed = True\<rparr> \<and>
   list_all (\<lambda>p. 0 < fst p)
     (all_counts
       \<lparr>replacements = [(bytes_of ''b'', [([], (1, 0))])],
        lemcounts = [([], (1, 0)), (bytes_of ''d'', (1, 1))],
        infcounts = [(bytes_of ''b'', (1, 0)), (bytes_of ''d'', (1, 1))],
        max_suffix_size = 1, is_trimmed = True\<rparr>)"
  using
    Model_trim_correct [of
      "\<lparr>replacements = [(bytes_of ''b'', [([], (1, 0))]), (bytes_of ''d'', [(bytes_of ''d'', (0, 1))])],
        lemcounts = [([], (1, 0)), (bytes_of ''b'', (0, 1)), (bytes_of ''d'', (1, 1))],
        infcounts = [(bytes_of ''b'', (1, 0)), ([], (0, 1)), (bytes_of ''d'', (1, 1))],
        max_suffix_size = 1, is_trimmed = False\<rparr>"]
    Model_trim_correct [of
      "\<lparr>replacements = [(bytes_of ''b'', [([], (1, 0))])],
        lemcounts = [([], (1, 0)), (bytes_of ''d'', (1, 1))],
        infcounts = [(bytes_of ''b'', (1, 0)), (bytes_of ''d'', (1, 1))],
        max_suffix_size = 1, is_trimmed = True\<rparr>"]
    trained_example
  by (simp add: all_counts_def)

text \<open>
  Claim C6 as stated fails on stores that \<open>load\<close> builds. The first file marks
  the store trimmed and holds an entry with a zero true-positive count: \<open>load\<close>
  accepts it, \<open>Model_trim\<close> changes nothing, and the entry stays. The second file
  holds a negative true-positive count, which trimming keeps.
\<close>

theorem Model_trim_counterexample:
  "load [0x38, 0x09, 0x31, 0x0A,
         0x31, 0x0A,
         0x61, 0x09, 0x30, 0x09, 0x31, 0x0A,
         0x30, 0x0A,
         0x30, 0x0A] =
     Inr \<lparr>replacements = [], lemcounts = [(bytes_of ''a'', (0, 1))], infcounts = [],
          max_suffix_size = 8, is_trimmed = True\<rparr> \<and>
   all_counts (Model_trim
     \<lparr>replacements = [], lemcounts = [(bytes_of ''a'', (0, 1))], infcounts = [],
      max_suffix_size = 8, is_trimmed = True\<rparr>) = [(0, 1)] \<and>
   load [0x38, 0x09, 0x30, 0x0A,
         0x31, 0x0A,
         0x61, 0x09, 0x2D, 0x31, 0x09, 0x30, 0x0A,
         0x30, 0x0A,
         0x30, 0x0A] =
     Inr \<lparr>replacements = [], lemcounts = [(bytes_of ''a'', (- 1, 0))], infcounts = [],
          max_suffix_size = 8, is_trimmed = False\<rparr> \<and>
   all_counts (Model_trim
     \<lparr>replacements = [], lemcounts = [(bytes_of ''a'', (- 1, 0))], infcounts = [],
      max_suffix_size = 8, is_trimmed = False\<rparr>) = [(- 1, 0)]"
  by code_simp

section \<open>Properties of the inferencer\<close>

subsection \<open>Comparing scores\<close>






subsection \<open>The loops of lemmatize\<close>









subsection \<open>The marker in front of the result\<close>









text \<open>
  The scores of the two candidates for the suffix \<open>s\<close> in that store. The second
  is not \<open>3 / 8\<close>: the quotient of the rounded \<open>3 / 11\<close> and \<open>8 / 11\<close> is one
  unit in the last place below it.
\<close>

lemma scores_cats_bus:
  "scored_candidates
     \<lparr>replacements = [(bytes_of ''s'', [([], (5, 0)), (bytes_of ''s'', (3, 0))])],
      lemcounts = [([], (5, 0)), (bytes_of ''s'', (3, 8))],
      infcounts = [(bytes_of ''s'', (8, 3)), ([], (0, 5))],
      max_suffix_size = 1, is_trimmed = False\<rparr> (bytes_of ''s'') =
   [([], Finite False (11 / 8)),
    (bytes_of ''s'', Finite False (6755399441055743 / 18014398509481984))]"
  by code_simp


text \<open>
  The corpus must be free of the marker, as the input format requires. After
  \<open>update\<close> of \<open>a$x\<close> to \<open>a\<close> (suffix size 2) the suffix \<open>$x\<close> has the empty
  string as its replacement, the joined string for the word \<open>x\<close> is empty, and
  \<open>substr(1)\<close> fails.
\<close>

lemma lemmatize_marker_in_corpus:
  "update (init_Model 2) (bytes_of ''a$x'') (bytes_of ''a'') 1 =
     Inr \<lparr>replacements = [(bytes_of ''x'', [([], (0, 1))]), (bytes_of ''$x'', [([], (1, 0))])],
          lemcounts = [([], (2, 0)), (bytes_of ''x'', (0, 1)), (bytes_of ''$x'', (0, 1))],
          infcounts = [(bytes_of ''x'', (1, 0)), ([], (0, 2)), (bytes_of ''$x'', (1, 0))],
          max_suffix_size = 2, is_trimmed = False\<rparr> \<and>
   lemmatize
     \<lparr>replacements = [(bytes_of ''x'', [([], (0, 1))]), (bytes_of ''$x'', [([], (1, 0))])],
      lemcounts = [([], (2, 0)), (bytes_of ''x'', (0, 1)), (bytes_of ''$x'', (0, 1))],
      infcounts = [(bytes_of ''x'', (1, 0)), ([], (0, 2)), (bytes_of ''$x'', (1, 0))],
      max_suffix_size = 2, is_trimmed = False\<rparr> (bytes_of ''x'') = Inl OutOfRange"
  by code_simp

section \<open>Properties of the serialisation\<close>

text \<open>
  Claim C3 asks that \<open>load (save model)\<close> gives a model that lemmatizes as the
  original does. The code does not meet it. Training \<open>ab\<close> to \<open>a\<close> with suffix
  size 1 and trimming leaves a store whose only entry of \<open>lemcounts\<close> has the empty
  string as its key. \<open>save\<close> writes that entry as a line that starts with a tab,
  right after the line with the number of entries; \<open>load\<close> reads the key with
  \<open>%1024[^\t]\<close>, which needs at least one byte before the tab, and gives up with
  "Could not read model data."
\<close>

theorem load_save_fails:
  "update (init_Model 1) (bytes_of ''ab'') (bytes_of ''a'') 1 =
     Inr \<lparr>replacements = [(bytes_of ''b'', [([], (1, 0))])],
          lemcounts = [([], (1, 0)), (bytes_of ''b'', (0, 1))],
          infcounts = [(bytes_of ''b'', (1, 0)), ([], (0, 1))],
          max_suffix_size = 1, is_trimmed = False\<rparr> \<and>
   Model_trim
     \<lparr>replacements = [(bytes_of ''b'', [([], (1, 0))])],
      lemcounts = [([], (1, 0)), (bytes_of ''b'', (0, 1))],
      infcounts = [(bytes_of ''b'', (1, 0)), ([], (0, 1))],
      max_suffix_size = 1, is_trimmed = False\<rparr> =
     \<lparr>replacements = [(bytes_of ''b'', [([], (1, 0))])],
      lemcounts = [([], (1, 0))],
      infcounts = [(bytes_of ''b'', (1, 0))],
      max_suffix_size = 1, is_trimmed = True\<rparr> \<and>
   save
     \<lparr>replacements = [(bytes_of ''b'', [([], (1, 0))])],
      lemcounts = [([], (1, 0))],
      infcounts = [(bytes_of ''b'', (1, 0))],
      max_suffix_size = 1, is_trimmed = True\<rparr> =
     [0x31, 0x09, 0x31, 0x0A,
      0x31, 0x0A,
      0x09, 0x31, 0x09, 0x30, 0x0A,
      0x31, 0x0A,
      0x62, 0x09, 0x31, 0x09, 0x30, 0x0A,
      0x31, 0x0A,
      0x62, 0x09, 0x31, 0x0A,
      0x09, 0x31, 0x09, 0x30, 0x0A] \<and>
   load
     [0x31, 0x09, 0x31, 0x0A,
      0x31, 0x0A,
      0x09, 0x31, 0x09, 0x30, 0x0A,
      0x31, 0x0A,
      0x62, 0x09, 0x31, 0x09, 0x30, 0x0A,
      0x31, 0x0A,
      0x62, 0x09, 0x31, 0x0A,
      0x09, 0x31, 0x09, 0x30, 0x0A] = Inl ReadError"
  by code_simp

end
